theory Spec2Isabelle
  imports Main "HOL-Library.AList"
begin

section \<open>Stock Data Explorer: a shallow embedding of stock\_explorer.py\<close>

text \<open>
  The program is an interactive script: it reads lines from standard input, prints to
  standard output, keeps one list of statistics records (\<open>all_stocks\<close>) and appends rows
  to CSV files. The embedding threads one state record through every function. A function
  that can raise returns \<open>exn + result\<close>, \<open>Inl\<close> carrying the exception.

  Strings are lists of 8-bit characters, each read as the code point of that number, so the
  model covers text below U+0100.
\<close>

subsection \<open>Python string methods\<close>

text \<open>\<open>str.isspace\<close> on one character: the whitespace code points below U+0100.\<close>

definition py_isspace :: "char \<Rightarrow> bool" where
  "py_isspace c = (c \<in> set [CHR 0x09, CHR 0x0A, CHR 0x0B, CHR 0x0C, CHR 0x0D, CHR 0x1C,
     CHR 0x1D, CHR 0x1E, CHR 0x1F, CHR 0x20, CHR 0x85, CHR 0xA0])"

text \<open>\<open>s.strip()\<close>: whitespace removed at both ends.\<close>

definition strip :: "string \<Rightarrow> string" where
  "strip s = rev (dropWhile py_isspace (rev (dropWhile py_isspace s)))"

text \<open>\<open>s.strip(chars)\<close>: the characters of \<open>chars\<close> removed at both ends.\<close>

definition strip_chars :: "string \<Rightarrow> string \<Rightarrow> string" where
  "strip_chars chars s =
     rev (dropWhile (\<lambda>c. c \<in> set chars) (rev (dropWhile (\<lambda>c. c \<in> set chars) s)))"

text \<open>
  \<open>s.lower()\<close>: A to Z and the Latin-1 capitals (U+00C0 to U+00DE without the
  multiplication sign) move up by 32.
\<close>

definition lower_char :: "char \<Rightarrow> char" where
  "lower_char c = (let n = (of_char c :: nat) in
     if (65 \<le> n \<and> n \<le> 90) \<or> (192 \<le> n \<and> n \<le> 222 \<and> n \<noteq> 215)
     then char_of (n + 32) else c)"

definition lower :: "string \<Rightarrow> string" where
  "lower s = map lower_char s"

text \<open>
  \<open>s.upper()\<close>: a to z and the Latin-1 small letters move down by 32; the sharp s becomes
  \<open>SS\<close>. The micro sign and y with diaeresis have capitals beyond U+00FF, which this
  character type cannot hold: the model leaves them as they are.
\<close>

definition upper_char :: "char \<Rightarrow> string" where
  "upper_char c = (let n = (of_char c :: nat) in
     if (97 \<le> n \<and> n \<le> 122) \<or> (224 \<le> n \<and> n \<le> 254 \<and> n \<noteq> 247)
     then [char_of (n - 32)]
     else if n = 223 then ''SS'' else [c])"

definition upper :: "string \<Rightarrow> string" where
  "upper s = concat (map upper_char s)"

text \<open>\<open>s.replace(old, new)\<close> for a one-character \<open>old\<close>.\<close>

definition replace :: "char \<Rightarrow> string \<Rightarrow> string \<Rightarrow> string" where
  "replace old new s = concat (map (\<lambda>c. if c = old then new else [c]) s)"

text \<open>\<open>s.endswith(suffix)\<close>.\<close>

definition endswith :: "string \<Rightarrow> string \<Rightarrow> bool" where
  "endswith s suffix = (length suffix \<le> length s \<and> drop (length s - length suffix) s = suffix)"

text \<open>\<open>s.split(sep)[0]\<close> for a one-character \<open>sep\<close>: the text before the first \<open>sep\<close>.\<close>

definition split_first :: "char \<Rightarrow> string \<Rightarrow> string" where
  "split_first sep s = takeWhile (\<lambda>c. c \<noteq> sep) s"

text \<open>The newline character, as a string.\<close>

definition nl :: string where
  "nl = [CHR 0x0A]"

text \<open>\<open>str(n)\<close> for a natural number.\<close>

fun str_nat :: "nat \<Rightarrow> string" where
  "str_nat n = (if n < 10 then [''0123456789'' ! n]
                else str_nat (n div 10) @ [''0123456789'' ! (n mod 10)])"

declare str_nat.simps [simp del]

subsection \<open>Exceptions, the state, console input and output\<close>

datatype exn = EOFError | SystemExit string | KeyError string | ValueError string | IndexError

type_synonym dict = "(string \<times> string) list"

text \<open>
  \<open>stdin\<close> holds the lines the user will still type, \<open>stdout\<close> what has been printed
  (prompts included), \<open>files\<close> the CSV files of the working directory as lists of rows,
  \<open>all_stocks\<close> the list object that \<open>main\<close> creates and passes to its callees.
\<close>

record state =
  stdin :: "string list"
  stdout :: "string list"
  files :: "string \<Rightarrow> string list list option"
  all_stocks :: "dict list"

definition py_print :: "string \<Rightarrow> state \<Rightarrow> state" where
  "py_print msg s = s\<lparr>stdout := stdout s @ [msg]\<rparr>"

text \<open>\<open>input(prompt)\<close>: prints the prompt, returns the next line, raises at end of input.\<close>

definition py_input :: "string \<Rightarrow> state \<Rightarrow> exn + (string \<times> state)" where
  "py_input prompt s =
     (case stdin s of
        [] \<Rightarrow> Inl EOFError
      | l # ls \<Rightarrow> Inr (l, s\<lparr>stdin := ls, stdout := stdout s @ [prompt]\<rparr>))"

lemma py_input_decreases:
  "py_input p s = Inr (l, s') \<Longrightarrow> length (stdin s') < length (stdin s)"
  by (auto simp: py_input_def split: list.splits)

lemma py_input_all_stocks:
  "py_input p s = Inr (l, s') \<Longrightarrow> all_stocks s' = all_stocks s \<and> files s' = files s"
  by (auto simp: py_input_def split: list.splits)

subsection \<open>exit\_menu\<close>

text \<open>The body of the \<open>while True\<close> loop, entered with the current \<open>exit_choice\<close>.\<close>

function exit_loop :: "string \<Rightarrow> state \<Rightarrow> exn + state" where
  "exit_loop exit_choice s =
     (if exit_choice = ''y'' then Inl (SystemExit (nl @ ''.....Exiting.....'' @ nl))
      else if exit_choice = ''n'' then Inr s
      else (case py_input ''Invalid input. Please try again: '' s of
              Inl e \<Rightarrow> Inl e
            | Inr (l, s') \<Rightarrow> exit_loop (lower (strip l)) s'))"
  by pat_completeness auto
termination
  by (relation "measure (\<lambda>(c, s). length (stdin s))") (auto dest: py_input_decreases)

declare exit_loop.simps [simp del]

definition exit_menu :: "state \<Rightarrow> exn + state" where
  "exit_menu s =
     (case py_input ''Are you sure you wish to exit? All analyzed stocks will be lost [y/N]: '' s of
        Inl e \<Rightarrow> Inl e
      | Inr (l, s') \<Rightarrow> exit_loop (lower (strip l)) s')"

text \<open>An answer that is neither \<open>y\<close> nor \<open>n\<close> once stripped and lowercased.\<close>

definition undecided :: "string \<Rightarrow> bool" where
  "undecided l = (lower (strip l) \<noteq> ''y'' \<and> lower (strip l) \<noteq> ''n'')"

lemma exit_loop_run:
  "exit_loop c s =
     (if c = ''y'' then Inl (SystemExit (nl @ ''.....Exiting.....'' @ nl))
      else if c = ''n'' then Inr s
      else (case dropWhile undecided (stdin s) of
          [] \<Rightarrow> Inl EOFError
        | x # rest \<Rightarrow>
            if lower (strip x) = ''y'' then Inl (SystemExit (nl @ ''.....Exiting.....'' @ nl))
            else Inr (s\<lparr>stdin := rest,
                   stdout := stdout s @ replicate (Suc (length (takeWhile undecided (stdin s))))
                      ''Invalid input. Please try again: ''\<rparr>)))"
proof (induction c s rule: exit_loop.induct)
  case (1 c s)
  show ?case
  proof (cases "c = ''y'' \<or> c = ''n''")
    case True
    then show ?thesis by (auto simp: exit_loop.simps)
  next
    case False
    show ?thesis
    proof (cases "stdin s")
      case Nil
      with False show ?thesis by (simp add: exit_loop.simps[of c s] py_input_def)
    next
      case (Cons l ls)
      let ?s' = "s\<lparr>stdin := ls, stdout := stdout s @ [''Invalid input. Please try again: '']\<rparr>"
      have inp: "py_input ''Invalid input. Please try again: '' s = Inr (l, ?s')"
        by (simp add: py_input_def Cons)
      from False have "c \<noteq> ''y''" "c \<noteq> ''n''" by auto
      note IH = "1.IH"[OF this inp refl]
      have unf: "exit_loop c s = exit_loop (lower (strip l)) ?s'"
        using False by (subst exit_loop.simps) (simp add: inp)
      show ?thesis
      proof (cases "undecided l")
        case True
        then have "lower (strip l) \<noteq> ''y''" "lower (strip l) \<noteq> ''n''"
          by (simp_all add: undecided_def)
        with True False Cons show ?thesis
          by (cases "dropWhile undecided ls")
            (simp_all add: unf IH replicate_append_same del: dropWhile_eq_Nil_conv)
      next
        case nd: False
        then have "lower (strip l) = ''y'' \<or> lower (strip l) = ''n''"
          by (auto simp: undecided_def)
        with nd False Cons show ?thesis
          by (auto simp: unf IH)
      qed
    qed
  qed
qed

text \<open>
  C10. \<open>exit_menu\<close> is decided by the first answer that is \<open>y\<close> or \<open>n\<close> once stripped and
  lowercased. Every answer before it is followed by the retry prompt and the next read.
  The process ends with \<open>SystemExit\<close> exactly when that answer is \<open>y\<close>; the function
  returns to its caller exactly when it is \<open>n\<close>, having changed nothing but the console.
  When the input ends before such an answer, \<open>input\<close> raises \<open>EOFError\<close>.
\<close>

theorem exit_menu_decided_by_first_y_or_n:
  "exit_menu s =
     (case dropWhile undecided (stdin s) of
        [] \<Rightarrow> Inl EOFError
      | x # rest \<Rightarrow>
          if lower (strip x) = ''y'' then Inl (SystemExit (nl @ ''.....Exiting.....'' @ nl))
          else Inr (s\<lparr>stdin := rest,
                 stdout := stdout s @
                   ''Are you sure you wish to exit? All analyzed stocks will be lost [y/N]: '' #
                   replicate (length (takeWhile undecided (stdin s)))
                     ''Invalid input. Please try again: ''\<rparr>))"
proof (cases "stdin s")
  case Nil
  then show ?thesis by (simp add: exit_menu_def py_input_def)
next
  case (Cons l ls)
  show ?thesis
  proof (cases "undecided l")
    case True
    then have "lower (strip l) \<noteq> ''y''" "lower (strip l) \<noteq> ''n''"
      by (simp_all add: undecided_def)
    with True Cons show ?thesis
      by (cases "dropWhile undecided ls")
        (simp_all add: exit_menu_def py_input_def exit_loop_run del: dropWhile_eq_Nil_conv)
  next
    case False
    then have "lower (strip l) = ''y'' \<or> lower (strip l) = ''n''"
      by (auto simp: undecided_def)
    with False Cons show ?thesis
      by (auto simp: exit_menu_def py_input_def exit_loop_run)
  qed
qed

subsection \<open>Menu choices\<close>

text \<open>
  \<open>int(s)\<close> on a string, as CPython reads a base-10 literal: whitespace is stripped, one
  sign may lead, digits follow with single underscores allowed between them, and a literal
  of more than 4300 digits is refused. Anything else raises \<open>ValueError\<close>.
\<close>

definition is_digit :: "char \<Rightarrow> bool" where
  "is_digit c = (c \<in> set ''0123456789'')"

definition digit_val :: "char \<Rightarrow> nat" where
  "digit_val c = of_char c - 48"

fun int_body :: "char option \<Rightarrow> string \<Rightarrow> bool" where
  "int_body prev [] = (case prev of None \<Rightarrow> False | Some p \<Rightarrow> p \<noteq> CHR ''_'')"
| "int_body prev (c # cs) =
     (if c = CHR ''_''
      then (case prev of None \<Rightarrow> False | Some p \<Rightarrow> p \<noteq> CHR ''_'' \<and> int_body (Some c) cs)
      else is_digit c \<and> int_body (Some c) cs)"

definition py_int :: "string \<Rightarrow> exn + int" where
  "py_int s =
     (let t = strip s;
          neg = (case t of c # _ \<Rightarrow> c = CHR ''-'' | [] \<Rightarrow> False);
          body = (case t of c # r \<Rightarrow> if c = CHR ''-'' \<or> c = CHR ''+'' then r else t | [] \<Rightarrow> []);
          digits = filter is_digit body
      in if \<not> int_body None body \<or> 4300 < length digits
         then Inl (ValueError ''invalid literal for int() with base 10'')
         else Inr ((if neg then - 1 else 1) * int (foldl (\<lambda>a c. 10 * a + digit_val c) 0 digits)))"

lemma py_print_stdin [simp]: "stdin (py_print m s) = stdin s"
  by (simp add: py_print_def)

lemma py_print_all_stocks [simp]: "all_stocks (py_print m s) = all_stocks s"
  by (simp add: py_print_def)

lemma py_print_files [simp]: "files (py_print m s) = files s"
  by (simp add: py_print_def)

text \<open>
  \<open>main\<close> holds the same validation loop three times, with its own prompt, upper bound and
  messages each time:
  \<^verbatim>\<open>
  while True:
      try:
          choice = int(input(prompt).strip())
          if 1 <= choice <= hi:
              break
          print(range_msg)
      except ValueError:
          print(value_msg)
  \<close>
\<close>

function menu_choice :: "string \<Rightarrow> int \<Rightarrow> string \<Rightarrow> string \<Rightarrow> state \<Rightarrow> exn + (int \<times> state)" where
  "menu_choice prompt hi range_msg value_msg s =
     (case py_input prompt s of
        Inl e \<Rightarrow> Inl e
      | Inr (l, s1) \<Rightarrow>
          (case py_int (strip l) of
             Inl e \<Rightarrow> menu_choice prompt hi range_msg value_msg (py_print value_msg s1)
           | Inr n \<Rightarrow>
               if 1 \<le> n \<and> n \<le> hi then Inr (n, s1)
               else menu_choice prompt hi range_msg value_msg (py_print range_msg s1)))"
  by pat_completeness auto
termination
  by (relation "measure (\<lambda>(p, h, r, v, s). length (stdin s))") (auto dest: py_input_decreases)

declare menu_choice.simps [simp del]

text \<open>Lines 48 to 57, 69 to 80 and 104 to 116 of \<open>main\<close>.\<close>

definition main_menu_choice :: "state \<Rightarrow> exn + (int \<times> state)" where
  "main_menu_choice s =
     menu_choice ''What would you like to do? (1, 2, 3, 4): '' 4
       ''Invalid input, please choose between 1 and 4''
       ''Invalid input, please try again.'' s"

definition stock_choice :: "state \<Rightarrow> exn + (int \<times> state)" where
  "stock_choice s =
     menu_choice ''What would you like to do? (1, 2, 3, or 4): '' 4
       ''Invalid input, please choose between 1 and 4''
       ''Invalid input, please try again.'' s"

definition access_choice :: "state \<Rightarrow> exn + (int \<times> state)" where
  "access_choice s =
     menu_choice ''What would you like to do? (1, 2, 3, 4, or 5): '' 5
       ''Invalid input, please choose between 1 and 5''
       ''Invalid input. Please try again.'' s"

text \<open>
  A line is accepted when, stripped, it parses as an integer from 1 to \<open>hi\<close>. \<open>reply\<close> is
  the message a rejected line gets, \<open>parsed\<close> the integer of a line that parses.
\<close>

definition accepted :: "int \<Rightarrow> string \<Rightarrow> bool" where
  "accepted hi l = (case py_int (strip l) of Inl e \<Rightarrow> False | Inr n \<Rightarrow> 1 \<le> n \<and> n \<le> hi)"

definition rejected :: "int \<Rightarrow> string \<Rightarrow> bool" where
  "rejected hi l = (\<not> accepted hi l)"

definition reply :: "string \<Rightarrow> string \<Rightarrow> string \<Rightarrow> string" where
  "reply range_msg value_msg l =
     (case py_int (strip l) of Inl e \<Rightarrow> value_msg | Inr n \<Rightarrow> range_msg)"

definition parsed :: "string \<Rightarrow> int" where
  "parsed l = (case py_int (strip l) of Inl e \<Rightarrow> 0 | Inr n \<Rightarrow> n)"

lemma menu_choice_run:
  "menu_choice p hi rm vm s =
     (case dropWhile (rejected hi) (stdin s) of
        [] \<Rightarrow> Inl EOFError
      | x # rest \<Rightarrow>
          Inr (parsed x,
               s\<lparr>stdin := rest,
                 stdout := stdout s @
                   concat (map (\<lambda>l. [p, reply rm vm l]) (takeWhile (rejected hi) (stdin s))) @ [p]\<rparr>))"
proof (induction p hi rm vm s rule: menu_choice.induct)
  case (1 p hi rm vm s)
  show ?case
  proof (cases "stdin s")
    case Nil
    then show ?thesis by (simp add: menu_choice.simps[of p hi rm vm s] py_input_def)
  next
    case (Cons l ls)
    let ?s1 = "s\<lparr>stdin := ls, stdout := stdout s @ [p]\<rparr>"
    have inp: "py_input p s = Inr (l, ?s1)"
      by (simp add: py_input_def Cons)
    show ?thesis
    proof (cases "py_int (strip l)")
      case (Inl e)
      then have rej: "rejected hi l" and rep: "reply rm vm l = vm"
        by (simp_all add: rejected_def accepted_def reply_def)
      have unf: "menu_choice p hi rm vm s = menu_choice p hi rm vm (py_print vm ?s1)"
        by (subst menu_choice.simps) (simp add: inp Inl)
      note IH = "1.IH"(1)[OF inp refl Inl]
      show ?thesis
        unfolding unf IH using rej rep Cons
        by (cases "dropWhile (rejected hi) ls")
          (simp_all add: py_print_def del: dropWhile_eq_Nil_conv)
    next
      case (Inr n)
      show ?thesis
      proof (cases "1 \<le> n \<and> n \<le> hi")
        case True
        with Inr have acc: "\<not> rejected hi l" and par: "parsed l = n"
          by (simp_all add: rejected_def accepted_def parsed_def)
        have "menu_choice p hi rm vm s = Inr (n, ?s1)"
          using True by (subst menu_choice.simps) (simp add: inp Inr)
        with acc par Cons show ?thesis by simp
      next
        case False
        with Inr have rej: "rejected hi l" and rep: "reply rm vm l = rm"
          by (auto simp: rejected_def accepted_def reply_def)
        have unf: "menu_choice p hi rm vm s = menu_choice p hi rm vm (py_print rm ?s1)"
          using False by (subst menu_choice.simps) (auto simp: inp Inr)
        note IH = "1.IH"(2)[OF inp refl Inr False]
        show ?thesis
          unfolding unf IH using rej rep Cons
          by (cases "dropWhile (rejected hi) ls")
            (simp_all add: py_print_def del: dropWhile_eq_Nil_conv)
      qed
    qed
  qed
qed

lemma accepted_iff:
  "accepted hi l = (\<exists>n. py_int (strip l) = Inr n \<and> 1 \<le> n \<and> n \<le> hi \<and> parsed l = n)"
  by (auto simp: accepted_def parsed_def split: sum.splits)

text \<open>
  C7. The main menu prompt skips every line that does not, once stripped, parse as an
  integer from 1 to 4, answering each with its message (the range message for an integer
  out of range, the other for a line that is no integer) and prompting again. It stops at
  the first line that does, and returns that integer. Only the console has changed then:
  \<open>files\<close> and \<open>all_stocks\<close> are those of the state it started in. When the input ends
  before an accepted line, \<open>input\<close> raises \<open>EOFError\<close>.
\<close>

theorem main_menu_choice_accepts_1_to_4:
  "main_menu_choice s =
     (case dropWhile (rejected 4) (stdin s) of
        [] \<Rightarrow> Inl EOFError
      | x # rest \<Rightarrow>
          Inr (parsed x,
               s\<lparr>stdin := rest,
                 stdout := stdout s @
                   concat (map (\<lambda>l. [''What would you like to do? (1, 2, 3, 4): '',
                                     reply ''Invalid input, please choose between 1 and 4''
                                       ''Invalid input, please try again.'' l])
                              (takeWhile (rejected 4) (stdin s))) @
                   [''What would you like to do? (1, 2, 3, 4): '']\<rparr>))
   \<and> rejected 4 l = (\<not> accepted 4 l)
   \<and> accepted 4 l = (\<exists>n. py_int (strip l) = Inr n \<and> 1 \<le> n \<and> n \<le> 4 \<and> parsed l = n)"
  unfolding main_menu_choice_def menu_choice_run
  using accepted_iff[of 4 l] by (simp add: rejected_def)

lemma sample_choices:
  "rejected 4 ''abc''" "rejected 4 ''7''" "\<not> rejected 4 '' 3 ''" "parsed '' 3 '' = 3"
  "reply rm vm ''abc'' = vm" "reply rm vm ''7'' = rm"
  by (code_simp+)

theorem main_menu_choice_accepts_1_to_4_witness:
  "main_menu_choice \<lparr>stdin = [''abc'', ''7'', '' 3 '', ''x''], stdout = [],
       files = (\<lambda>f. None), all_stocks = []\<rparr> =
     Inr (3, \<lparr>stdin = [''x''],
        stdout = [''What would you like to do? (1, 2, 3, 4): '', ''Invalid input, please try again.'',
                  ''What would you like to do? (1, 2, 3, 4): '',
                  ''Invalid input, please choose between 1 and 4'',
                  ''What would you like to do? (1, 2, 3, 4): ''],
        files = (\<lambda>f. None), all_stocks = []\<rparr>)"
  using main_menu_choice_accepts_1_to_4[of "\<lparr>stdin = [''abc'', ''7'', '' 3 '', ''x''], stdout = [],
       files = (\<lambda>f. None), all_stocks = []\<rparr>" "''7''"]
  by (simp add: sample_choices)

subsection \<open>Dictionaries\<close>

text \<open>
  A Python \<open>dict\<close> of strings is an association list in insertion order. \<open>d[k]\<close>
  raises \<open>KeyError\<close> on a missing key; \<open>d[k] = v\<close> replaces the value of a key that is
  present and appends a new key at the end.
\<close>

definition getitem :: "dict \<Rightarrow> string \<Rightarrow> exn + string" where
  "getitem d k = (case map_of d k of None \<Rightarrow> Inl (KeyError k) | Some v \<Rightarrow> Inr v)"

definition setitem :: "dict \<Rightarrow> string \<Rightarrow> string \<Rightarrow> dict" where
  "setitem d k v = AList.update k v d"

subsection \<open>Dates and validate\_date\<close>

text \<open>\<open>datetime.date\<close>: the constructor refuses a year outside 1 to 9999 and a day the month
  does not have.\<close>

record date =
  year :: nat
  month :: nat
  day :: nat

definition is_leap :: "nat \<Rightarrow> bool" where
  "is_leap y = (y mod 4 = 0 \<and> (y mod 100 \<noteq> 0 \<or> y mod 400 = 0))"

definition days_in_month :: "nat \<Rightarrow> nat \<Rightarrow> nat" where
  "days_in_month y m =
     (if m = 2 then (if is_leap y then 29 else 28)
      else if m \<in> set [4, 6, 9, 11] then 30 else 31)"

definition datetime_date :: "int \<Rightarrow> int \<Rightarrow> int \<Rightarrow> exn + date" where
  "datetime_date y m d =
     (if \<not> (1 \<le> y \<and> y \<le> 9999) then Inl (ValueError ''year is out of range'')
      else if \<not> (1 \<le> m \<and> m \<le> 12) then Inl (ValueError ''month must be in 1..12'')
      else if \<not> (1 \<le> d \<and> d \<le> int (days_in_month (nat y) (nat m)))
        then Inl (ValueError ''day is out of range for month'')
      else Inr \<lparr>year = nat y, month = nat m, day = nat d\<rparr>)"

text \<open>
  \<open>strptime(d, "%Y-%m-%d")\<close> compiles the format to the regular expression
  \<^verbatim>\<open>(?P<Y>\d\d\d\d)-(?P<m>1[0-2]|0[1-9]|[1-9])-(?P<d>3[0-1]|[1-2]\d|0[1-9]|[1-9]| [1-9])\<close>
  matches it at the start of the string, refuses text left over after the match, and builds
  the date from the three groups. The matcher below lists the ways a regular expression
  matches a prefix, in the order a backtracking matcher tries them: its first element is
  the match \<open>re.match\<close> returns. Below U+0100 the class \<open>\d\<close> is the ten ASCII digits.
  Beyond U+0100 the class \<open>\d\<close> and \<open>int\<close> also take the other decimal digits of
  Unicode; strings with such characters are outside this model, and what is proved of
  \<open>strptime\<close> and \<open>validate_date\<close> is proved of the strings below U+0100.
\<close>

datatype rx = Chars string | Seq rx rx | Alt rx rx | Group string rx

type_synonym rx_state = "dict \<times> string"

fun rx_match :: "rx \<Rightarrow> rx_state \<Rightarrow> rx_state list" where
  "rx_match (Chars cs) (caps, s) =
     (case s of [] \<Rightarrow> [] | c # r \<Rightarrow> if c \<in> set cs then [(caps, r)] else [])"
| "rx_match (Seq a b) st = concat (map (rx_match b) (rx_match a st))"
| "rx_match (Alt a b) st = rx_match a st @ rx_match b st"
| "rx_match (Group name a) (caps, s) =
     map (\<lambda>(caps', r). (caps' @ [(name, take (length s - length r) s)], r)) (rx_match a (caps, s))"

definition rx_digit :: rx where
  "rx_digit = Chars ''0123456789''"

definition rx_nonzero :: rx where
  "rx_nonzero = Chars ''123456789''"

definition rx_Y :: rx where
  "rx_Y = Group ''Y'' (Seq rx_digit (Seq rx_digit (Seq rx_digit rx_digit)))"

definition rx_m :: rx where
  "rx_m = Group ''m'' (Alt (Seq (Chars ''1'') (Chars ''012''))
                      (Alt (Seq (Chars ''0'') rx_nonzero) rx_nonzero))"

definition rx_d :: rx where
  "rx_d = Group ''d'' (Alt (Seq (Chars ''3'') (Chars ''01''))
                      (Alt (Seq (Chars ''12'') rx_digit)
                      (Alt (Seq (Chars ''0'') rx_nonzero)
                      (Alt rx_nonzero (Seq (Chars '' '') rx_nonzero)))))"

definition format_regex :: rx where
  "format_regex = Seq rx_Y (Seq (Chars ''-'') (Seq rx_m (Seq (Chars ''-'') rx_d)))"

definition strptime :: "string \<Rightarrow> exn + date" where
  "strptime data_string =
     (case rx_match format_regex ([], data_string) of
        [] \<Rightarrow> Inl (ValueError ''time data does not match format'')
      | (found, rest) # _ \<Rightarrow>
          if rest \<noteq> [] then Inl (ValueError ''unconverted data remains'')
          else (case getitem found ''Y'' of Inl e \<Rightarrow> Inl e | Inr ys \<Rightarrow>
               (case py_int ys of Inl e \<Rightarrow> Inl e | Inr y \<Rightarrow>
               (case getitem found ''m'' of Inl e \<Rightarrow> Inl e | Inr ms \<Rightarrow>
               (case py_int ms of Inl e \<Rightarrow> Inl e | Inr m \<Rightarrow>
               (case getitem found ''d'' of Inl e \<Rightarrow> Inl e | Inr ds \<Rightarrow>
               (case py_int ds of Inl e \<Rightarrow> Inl e | Inr d \<Rightarrow>
                  datetime_date y m d)))))))"

text \<open>Lines 223 to 237: \<open>except ValueError\<close> catches that exception and no other.\<close>

definition validate_date :: "string \<Rightarrow> state \<Rightarrow> exn + (date option \<times> state)" where
  "validate_date d s =
     (case strptime d of
        Inr dt \<Rightarrow> Inr (Some dt, s)
      | Inl (ValueError m) \<Rightarrow> Inr (None, py_print ''Invalid date format or invalid calendar date.'' s)
      | Inl e \<Rightarrow> Inl e)"


subsection \<open>The data source and stock\_summary\_statistics\<close>

text \<open>\<open>a < b\<close> on dates, \<open>str(date)\<close>, and \<open>f"{n:,}"\<close> on an integer.\<close>

definition date_less :: "date \<Rightarrow> date \<Rightarrow> bool" where
  "date_less a b =
     (year a < year b \<or> (year a = year b \<and> (month a < month b \<or> (month a = month b \<and> day a < day b))))"

definition zfill :: "nat \<Rightarrow> string \<Rightarrow> string" where
  "zfill n s = replicate (n - length s) CHR ''0'' @ s"

definition isoformat :: "date \<Rightarrow> string" where
  "isoformat d = zfill 4 (str_nat (year d)) @ ''-'' @ zfill 2 (str_nat (month d)) @ ''-'' @ zfill 2 (str_nat (day d))"

function group3 :: "string \<Rightarrow> string" where
  "group3 ds = (if length ds \<le> 3 then ds
                else group3 (take (length ds - 3) ds) @ '','' @ drop (length ds - 3) ds)"
  by pat_completeness auto
termination
  by (relation "measure length") auto

declare group3.simps [simp del]

definition fmt_commas :: "int \<Rightarrow> string" where
  "fmt_commas n = (if n < 0 then ''-'' else []) @ group3 (str_nat (nat \<bar>n\<bar>))"

text \<open>
  One row of the table \<open>stock.history\<close> returns, and the dictionary \<open>validate_ticker\<close>
  returns. \<open>'f\<close> is the type of the table's numbers.
\<close>

record 'f bar =
  index :: date
  Open :: 'f
  High :: 'f
  Low :: 'f
  Close :: 'f
  Volume :: 'f

record ticker_info =
  ticker :: string
  long_name :: string

text \<open>
  What the program takes from outside: the data service (\<open>info_longName t\<close> is
  \<open>yf.Ticker(t).info.get("longName")\<close>, \<open>None\<close> also when \<open>info\<close> is empty), the clock,
  and the numeric library: the column aggregates of pandas, float arithmetic, the constant
  \<open>252**0.5\<close>, \<open>round\<close>, and \<open>fmt_fixed n x\<close> for \<open>f"{x:,.nf}"\<close>. The functions below hold
  for every such environment.
\<close>

record 'f env =
  info_longName :: "string \<Rightarrow> string option"
  history :: "string \<Rightarrow> date \<Rightarrow> date \<Rightarrow> 'f bar list"
  today :: date
  mean :: "'f list \<Rightarrow> 'f"
  series_max :: "'f list \<Rightarrow> 'f"
  series_min :: "'f list \<Rightarrow> 'f"
  pct_change_dropna :: "'f list \<Rightarrow> 'f list"
  std :: "'f list \<Rightarrow> 'f"
  fsub :: "'f \<Rightarrow> 'f \<Rightarrow> 'f"
  fdiv :: "'f \<Rightarrow> 'f \<Rightarrow> 'f"
  fmul :: "'f \<Rightarrow> 'f \<Rightarrow> 'f"
  sqrt_252 :: 'f
  hundred :: 'f
  round_int :: "'f \<Rightarrow> int"
  fmt_fixed :: "nat \<Rightarrow> 'f \<Rightarrow> string"

text \<open>Lines 240 to 262; the redirection of \<open>stderr\<close> is not modelled.\<close>

definition validate_ticker :: "'f env \<Rightarrow> string \<Rightarrow> state \<Rightarrow> ticker_info option \<times> state" where
  "validate_ticker env t s =
     (case info_longName env t of
        None \<Rightarrow> (None, py_print ''Entered ticker does not exist.'' s)
      | Some n \<Rightarrow> (Some \<lparr>ticker = t, long_name = n\<rparr>, s))"

text \<open>Lines 265 to 313. \<open>returns\<close> is \<open>data["Close"].pct_change().dropna()\<close>.\<close>

definition stock_summary_statistics ::
    "'f env \<Rightarrow> ticker_info \<Rightarrow> date \<Rightarrow> date \<Rightarrow> dict option" where
  "stock_summary_statistics env tk start_date end_date =
     (let sum_stats = [];
          data = history env (ticker tk) start_date end_date
      in if data = [] then None
         else
          (let sum_stats = setitem sum_stats ''stat1'' (ticker tk @ '' ('' @ long_name tk @ '')'');
               sum_stats = setitem sum_stats ''stat2''
                  (isoformat (index (hd data)) @ '' to '' @ isoformat (index (last data)));
               sum_stats = setitem sum_stats ''stat3'' (fmt_commas (int (length data)));
               sum_stats = setitem sum_stats ''stat4'' (''$'' @ fmt_fixed env 2 (Open (hd data)));
               sum_stats = setitem sum_stats ''stat5'' (''$'' @ fmt_fixed env 2 (Close (last data)));
               sum_stats = setitem sum_stats ''stat6'' (''$'' @ fmt_fixed env 2 (mean env (map Close data)));
               sum_stats = setitem sum_stats ''stat7''
                  (''$'' @ fmt_fixed env 2 (series_max env (map Close data)));
               sum_stats = setitem sum_stats ''stat8''
                  (''$'' @ fmt_fixed env 2 (series_max env (map High data)));
               sum_stats = setitem sum_stats ''stat9''
                  (''$'' @ fmt_fixed env 2 (series_min env (map Close data)));
               sum_stats = setitem sum_stats ''stat10''
                  (''$'' @ fmt_fixed env 2 (series_min env (map Low data)));
               returns = pct_change_dropna env (map Close data);
               sum_stats = setitem sum_stats ''stat11'' (fmt_fixed env 6 (std env returns));
               sum_stats = setitem sum_stats ''stat12''
                  (fmt_fixed env 6 (fmul env (std env returns) (sqrt_252 env)));
               sum_stats = setitem sum_stats ''stat13''
                  (fmt_fixed env 4
                     (fmul env (fdiv env (fsub env (Close (last data)) (Open (hd data))) (Open (hd data)))
                        (hundred env)) @ ''%'');
               sum_stats = setitem sum_stats ''stat14''
                  (fmt_commas (round_int env (mean env (map Volume data))))
           in Some sum_stats))"

subsection \<open>analyze\_stock\<close>

definition summary_statistics_titles :: "string list" where
  "summary_statistics_titles =
     [''Company: '', ''Date Range: '', ''Total Trading Days: '', ''Opening Price: '',
      ''Closing Price: '', ''Average Closing Price: '', ''Highest Closing Price: '',
      ''Highest Intraday Price: '', ''Lowest Closing Price: '', ''Lowest Intraday Price: '',
      ''Daily Price Volatility: '', ''Annualized Price Volatility: '', ''Total Return (%): '',
      ''Average Daily Volume: '']"

text \<open>
  \<open>for i in range(len(d)): print(f"{titles[i]}{d[f'stat{i + 1}']}")\<close>, the loop of
  \<open>analyze_stock\<close> (lines 207 and 208) and of \<open>list_stocks\<close>, over a list of indices.
\<close>

fun print_stats :: "string list \<Rightarrow> dict \<Rightarrow> nat list \<Rightarrow> state \<Rightarrow> exn + state" where
  "print_stats titles d [] s = Inr s"
| "print_stats titles d (i # rest) s =
     (if length titles \<le> i then Inl IndexError
      else (case getitem d (''stat'' @ str_nat (i + 1)) of
              Inl e \<Rightarrow> Inl e
            | Inr v \<Rightarrow> print_stats titles d rest (py_print (titles ! i @ v) s)))"

text \<open>
  Lines 210 to 220: the search of \<open>all_stocks\<close> for a record with the same \<open>stat1\<close> and
  \<open>stat2\<close>, then the append when there is none. The test \<open>if all_stocks\<close> only skips the
  loop over an empty list.
\<close>

fun already_analyzed :: "dict list \<Rightarrow> dict \<Rightarrow> exn + bool" where
  "already_analyzed [] summary_statistics = Inr False"
| "already_analyzed (stock # rest) summary_statistics =
     (case getitem stock ''stat1'' of Inl e \<Rightarrow> Inl e | Inr a1 \<Rightarrow>
     (case getitem summary_statistics ''stat1'' of Inl e \<Rightarrow> Inl e | Inr b1 \<Rightarrow>
        if a1 = b1 then
          (case getitem stock ''stat2'' of Inl e \<Rightarrow> Inl e | Inr a2 \<Rightarrow>
          (case getitem summary_statistics ''stat2'' of Inl e \<Rightarrow> Inl e | Inr b2 \<Rightarrow>
             if a2 = b2 then Inr True else already_analyzed rest summary_statistics))
        else already_analyzed rest summary_statistics))"

definition append_if_new :: "dict \<Rightarrow> state \<Rightarrow> exn + (dict \<times> state)" where
  "append_if_new summary_statistics s =
     (case already_analyzed (all_stocks s) summary_statistics of
        Inl e \<Rightarrow> Inl e
      | Inr True \<Rightarrow> Inr (summary_statistics, s)
      | Inr False \<Rightarrow> Inr (summary_statistics, s\<lparr>all_stocks := all_stocks s @ [summary_statistics]\<rparr>))"

text \<open>Lines 200 to 220: the report of a computed record, then the search and append.\<close>

definition report_stock ::
    "string list \<Rightarrow> ticker_info \<Rightarrow> date \<Rightarrow> date \<Rightarrow> dict \<Rightarrow> state \<Rightarrow> exn + (dict \<times> state)" where
  "report_stock titles stock_ticker start_date end_date summary_statistics s =
     (let s = py_print (''Company: '' @ ticker stock_ticker @ '' ('' @ long_name stock_ticker @ '')'') s;
          s = py_print (''Valid Date Range: '' @ isoformat start_date @ '' to '' @ isoformat end_date) s;
          s = py_print (''----------------------------------'' @ nl) s;
          s = py_print (''--'' @ nl @ ''**Note**:'' @ nl @
                ''If either the start or end date occurs on a day when the market was closed, the soonest succeeding day was chosen.''
                @ nl @ ''--'' @ nl) s
      in case print_stats titles summary_statistics [0..<length summary_statistics] s of
           Inl e \<Rightarrow> Inl e
         | Inr s \<Rightarrow> append_if_new summary_statistics s)"

text \<open>
  A pass through the body of a \<open>while True\<close> loop either reaches \<open>continue\<close> with a new
  state or returns a value.
\<close>

datatype 'a loop = Continue state | Return 'a

text \<open>\<open>validate_ticker(input(...).strip().upper())\<close> and \<open>validate_date(input(...).strip())\<close>.\<close>

definition input_ticker :: "'f env \<Rightarrow> state \<Rightarrow> exn + (ticker_info option \<times> state)" where
  "input_ticker env s =
     (case py_input ''Please enter a stock ticker: '' s of
        Inl e \<Rightarrow> Inl e
      | Inr (l, s1) \<Rightarrow> Inr (validate_ticker env (upper (strip l)) s1))"

definition input_date :: "string \<Rightarrow> state \<Rightarrow> exn + (date option \<times> state)" where
  "input_date prompt s =
     (case py_input prompt s of
        Inl e \<Rightarrow> Inl e
      | Inr (l, s1) \<Rightarrow> validate_date (strip l) s1)"

text \<open>The loop body from \<open>print(".....Validating.....")\<close> on, with the three inputs valid.\<close>

definition analyze_validated ::
    "'f env \<Rightarrow> string list \<Rightarrow> ticker_info \<Rightarrow> date \<Rightarrow> date \<Rightarrow> state
      \<Rightarrow> exn + (dict \<times> state) loop" where
  "analyze_validated env titles stock_ticker start_date end_date s =
     (let s = py_print (nl @ ''.....Validating.....'' @ nl) s in
      if \<not> date_less start_date end_date
      then Inr (Continue (py_print ''Start date must occur before end date'' s))
      else if date_less (today env) start_date \<or> date_less (today env) end_date
      then Inr (Continue (py_print ''Date(s) entered cannot be in the future.'' s))
      else
       (let s = py_print ''-----------------------------'' s;
            no_data = ''There is no data available for this date range.'' @ nl @
                 ''Please try again with another set of dates.'' @ nl @
                 ''-----------------------------''
        in case stock_summary_statistics env stock_ticker start_date end_date of
             None \<Rightarrow> Inr (Continue (py_print no_data s))
           | Some summary_statistics \<Rightarrow>
               if summary_statistics = [] then Inr (Continue (py_print no_data s))
               else
                 (case report_stock titles stock_ticker start_date end_date summary_statistics s of
                    Inl e \<Rightarrow> Inl e
                  | Inr r \<Rightarrow> Inr (Return r))))"

text \<open>One pass through the \<open>while True\<close> body: \<open>Continue\<close> is its \<open>continue\<close>.\<close>

definition analyze_stock_body ::
    "'f env \<Rightarrow> string list \<Rightarrow> state \<Rightarrow> exn + (dict \<times> state) loop" where
  "analyze_stock_body env titles s =
     (case input_ticker env s of
        Inl e \<Rightarrow> Inl e
      | Inr (None, s) \<Rightarrow> Inr (Continue s)
      | Inr (Some stock_ticker, s) \<Rightarrow>
     (case input_date ''Please enter a start date(YYYY-MM-DD): '' s of
        Inl e \<Rightarrow> Inl e
      | Inr (None, s) \<Rightarrow> Inr (Continue s)
      | Inr (Some start_date, s) \<Rightarrow>
     (case input_date ''Please enter an end date(YYYY-MM-DD): '' s of
        Inl e \<Rightarrow> Inl e
      | Inr (None, s) \<Rightarrow> Inr (Continue s)
      | Inr (Some end_date, s) \<Rightarrow>
          analyze_validated env titles stock_ticker start_date end_date s)))"

lemma py_input_frame:
  "py_input p s = Inr (l, s') \<Longrightarrow>
     length (stdin s') < length (stdin s) \<and> all_stocks s' = all_stocks s \<and> files s' = files s"
  by (auto simp: py_input_def split: list.splits)

lemma validate_ticker_frame:
  "validate_ticker env t s = (r, s') \<Longrightarrow>
     stdin s' = stdin s \<and> all_stocks s' = all_stocks s \<and> files s' = files s"
  by (auto simp: validate_ticker_def split: option.splits)

lemma validate_date_frame:
  "validate_date d s = Inr (r, s') \<Longrightarrow>
     stdin s' = stdin s \<and> all_stocks s' = all_stocks s \<and> files s' = files s"
  by (auto simp: validate_date_def split: sum.splits exn.splits)

lemma input_ticker_frame:
  "input_ticker env s = Inr (r, s') \<Longrightarrow>
     length (stdin s') < length (stdin s) \<and> all_stocks s' = all_stocks s \<and> files s' = files s"
  by (auto simp: input_ticker_def split: sum.splits prod.splits
      dest!: py_input_frame validate_ticker_frame)

lemma input_date_frame:
  "input_date p s = Inr (r, s') \<Longrightarrow>
     length (stdin s') < length (stdin s) \<and> all_stocks s' = all_stocks s \<and> files s' = files s"
  by (auto simp: input_date_def split: sum.splits prod.splits
      dest!: py_input_frame validate_date_frame)

lemma analyze_validated_continue:
  "analyze_validated env titles tk a b s = Inr (Continue s') \<Longrightarrow>
     stdin s' = stdin s \<and> all_stocks s' = all_stocks s \<and> files s' = files s"
  by (auto simp: analyze_validated_def Let_def split: if_splits option.splits sum.splits)

lemma analyze_stock_body_continue:
  assumes "analyze_stock_body env titles s = Inr (Continue s')"
  shows "length (stdin s') < length (stdin s) \<and> all_stocks s' = all_stocks s \<and> files s' = files s"
  using assms unfolding analyze_stock_body_def
  by (auto split: sum.splits prod.splits option.splits
      dest!: input_ticker_frame input_date_frame analyze_validated_continue)

text \<open>Lines 150 to 220. Every pass reads at least one line, so the loop ends.\<close>

function analyze_stock :: "'f env \<Rightarrow> string list \<Rightarrow> state \<Rightarrow> exn + (dict \<times> state)" where
  "analyze_stock env titles s =
     (case analyze_stock_body env titles s of
        Inl e \<Rightarrow> Inl e
      | Inr (Continue s') \<Rightarrow> analyze_stock env titles s'
      | Inr (Return r) \<Rightarrow> Inr r)"
  by pat_completeness auto
termination
  by (relation "measure (\<lambda>(env, titles, s). length (stdin s))")
    (auto dest: analyze_stock_body_continue)

declare analyze_stock.simps [simp del]


subsection \<open>The shape of a statistics record\<close>

text \<open>
  The keys \<open>f"stat{i + 1}"\<close> that the program builds when it reads a record, for the
  fourteen titles; a record with exactly these keys, in this order; and the pair that
  \<open>analyze_stock\<close> compares.
\<close>

definition stat_keys :: "string list" where
  "stat_keys = map (\<lambda>i. ''stat'' @ str_nat i) [1..<15]"

definition is_summary :: "dict \<Rightarrow> bool" where
  "is_summary d = (map fst d = stat_keys)"

definition stock_key :: "dict \<Rightarrow> string option \<times> string option" where
  "stock_key d = (map_of d ''stat1'', map_of d ''stat2'')"

lemma stat_keys_eval:
  "stat_keys = [''stat1'', ''stat2'', ''stat3'', ''stat4'', ''stat5'', ''stat6'', ''stat7'',
     ''stat8'', ''stat9'', ''stat10'', ''stat11'', ''stat12'', ''stat13'', ''stat14'']"
  by code_simp

lemma stock_summary_statistics_eq:
  "stock_summary_statistics env tk a b =
     (let data = history env (ticker tk) a b; returns = pct_change_dropna env (map Close data) in
      if data = [] then None
      else Some
        [(''stat1'', ticker tk @ '' ('' @ long_name tk @ '')''),
         (''stat2'', isoformat (index (hd data)) @ '' to '' @ isoformat (index (last data))),
         (''stat3'', fmt_commas (int (length data))),
         (''stat4'', ''$'' @ fmt_fixed env 2 (Open (hd data))),
         (''stat5'', ''$'' @ fmt_fixed env 2 (Close (last data))),
         (''stat6'', ''$'' @ fmt_fixed env 2 (mean env (map Close data))),
         (''stat7'', ''$'' @ fmt_fixed env 2 (series_max env (map Close data))),
         (''stat8'', ''$'' @ fmt_fixed env 2 (series_max env (map High data))),
         (''stat9'', ''$'' @ fmt_fixed env 2 (series_min env (map Close data))),
         (''stat10'', ''$'' @ fmt_fixed env 2 (series_min env (map Low data))),
         (''stat11'', fmt_fixed env 6 (std env returns)),
         (''stat12'', fmt_fixed env 6 (fmul env (std env returns) (sqrt_252 env))),
         (''stat13'', fmt_fixed env 4
             (fmul env (fdiv env (fsub env (Close (last data)) (Open (hd data))) (Open (hd data)))
                (hundred env)) @ ''%''),
         (''stat14'', fmt_commas (round_int env (mean env (map Volume data))))])"
  by (simp add: stock_summary_statistics_def Let_def setitem_def)

lemma stock_summary_statistics_is_summary:
  "stock_summary_statistics env tk a b = Some d \<Longrightarrow> is_summary d"
  by (auto simp: stock_summary_statistics_eq Let_def is_summary_def stat_keys_eval split: if_splits)

lemma print_stats_frame:
  "print_stats titles d is s = Inr s' \<Longrightarrow>
     stdin s' = stdin s \<and> all_stocks s' = all_stocks s \<and> files s' = files s"
  by (induction "is" arbitrary: s) (auto split: if_splits sum.splits)

lemma getitem_stat_key:
  "is_summary d \<Longrightarrow> k \<in> set stat_keys \<Longrightarrow> \<exists>v. getitem d k = Inr v"
proof -
  assume "is_summary d" "k \<in> set stat_keys"
  then have "k \<in> fst ` set d" by (metis is_summary_def set_map)
  then obtain v where "map_of d k = Some v"
    by (metis domD dom_map_of_conv_image_fst)
  then show ?thesis by (simp add: getitem_def)
qed

lemma print_stats_ok:
  assumes d: "is_summary d" and is14: "set is \<subseteq> {0..<14}" and t: "length titles = 14"
  shows "\<exists>s'. print_stats titles d is s = Inr s'"
  using is14
proof (induction "is" arbitrary: s)
  case Nil
  then show ?case by simp
next
  case (Cons i rest)
  then have i: "i < 14" by simp
  then have "''stat'' @ str_nat (i + 1) \<in> set stat_keys"
    by (auto simp: stat_keys_def intro!: image_eqI[where x = "i + 1"])
  from getitem_stat_key[OF d this] obtain v where "getitem d (''stat'' @ str_nat (i + 1)) = Inr v" ..
  with Cons i t show ?case by simp
qed

lemma is_summary_length: "is_summary d \<Longrightarrow> length d = 14"
proof -
  assume "is_summary d"
  then have "length (map fst d) = length stat_keys" by (simp add: is_summary_def)
  then show ?thesis by (simp add: stat_keys_eval)
qed

lemma already_analyzed_True:
  "already_analyzed stocks d = Inr True \<Longrightarrow> stock_key d \<in> stock_key ` set stocks"
  by (induction stocks) (auto simp: getitem_def stock_key_def split: sum.splits option.splits if_splits)

lemma already_analyzed_False:
  "already_analyzed stocks d = Inr False \<Longrightarrow> stock_key d \<notin> stock_key ` set stocks"
  by (induction stocks) (auto simp: getitem_def stock_key_def split: sum.splits option.splits if_splits)

lemma already_analyzed_total:
  assumes "\<forall>stock\<in>set stocks. is_summary stock" and "is_summary d"
  shows "already_analyzed stocks d = Inr (stock_key d \<in> stock_key ` set stocks)"
  using assms(1)
proof (induction stocks)
  case Nil
  then show ?case by simp
next
  case (Cons stock rest)
  have k: "''stat1'' \<in> set stat_keys" "''stat2'' \<in> set stat_keys"
    by (simp_all add: stat_keys_eval)
  from Cons.prems have st: "is_summary stock" by simp
  obtain a1 a2 b1 b2 where
    g: "getitem stock ''stat1'' = Inr a1" "getitem stock ''stat2'' = Inr a2"
       "getitem d ''stat1'' = Inr b1" "getitem d ''stat2'' = Inr b2"
    using getitem_stat_key[OF st] getitem_stat_key[OF assms(2)] k by metis
  then have m: "map_of stock ''stat1'' = Some a1" "map_of stock ''stat2'' = Some a2"
      "map_of d ''stat1'' = Some b1" "map_of d ''stat2'' = Some b2"
    by (auto simp: getitem_def split: option.splits)
  from Cons have IH: "already_analyzed rest d = Inr (stock_key d \<in> stock_key ` set rest)" by simp
  show ?case
    using g m IH by (auto simp: stock_key_def)
qed

lemma append_if_new_cases:
  "append_if_new d s = Inr (r, s') \<Longrightarrow>
     r = d \<and> files s' = files s \<and> stdin s' = stdin s \<and>
     (if stock_key d \<in> stock_key ` set (all_stocks s) then all_stocks s' = all_stocks s
      else all_stocks s' = all_stocks s @ [d])"
  unfolding append_if_new_def
  by (cases "already_analyzed (all_stocks s) d")
     (auto split: if_splits bool.splits dest: already_analyzed_False already_analyzed_True)

lemma report_stock_result:
  "report_stock titles tk a b d s = Inr (r, s') \<Longrightarrow>
     \<exists>s1. all_stocks s1 = all_stocks s \<and> files s1 = files s \<and> stdin s1 = stdin s \<and>
          append_if_new d s1 = Inr (r, s')"
  unfolding report_stock_def Let_def
  by (auto split: sum.splits dest!: print_stats_frame)

lemma analyze_validated_return:
  "analyze_validated env titles tk a b s = Inr (Return (r, s')) \<Longrightarrow>
     \<exists>d s1. stock_summary_statistics env tk a b = Some d \<and>
       all_stocks s1 = all_stocks s \<and> files s1 = files s \<and> append_if_new d s1 = Inr (r, s')"
  unfolding analyze_validated_def Let_def
  by (auto split: if_splits option.splits sum.splits dest!: report_stock_result)

lemma analyze_stock_body_return:
  "analyze_stock_body env titles s = Inr (Return (r, s')) \<Longrightarrow>
     \<exists>tk a b d s1. stock_summary_statistics env tk a b = Some d \<and>
       all_stocks s1 = all_stocks s \<and> files s1 = files s \<and> append_if_new d s1 = Inr (r, s')"
  unfolding analyze_stock_body_def
  by (auto split: sum.splits prod.splits option.splits
      dest!: input_ticker_frame input_date_frame analyze_validated_return) metis+

lemma analyze_stock_result:
  "analyze_stock env titles s = Inr (r, s') \<Longrightarrow>
     \<exists>tk a b d s1. stock_summary_statistics env tk a b = Some d \<and>
       all_stocks s1 = all_stocks s \<and> files s1 = files s \<and> append_if_new d s1 = Inr (r, s')"
proof (induction env titles s rule: analyze_stock.induct)
  case (1 env titles s)
  show ?case
  proof (cases "analyze_stock_body env titles s")
    case (Inl e)
    with "1.prems" show ?thesis by (simp add: analyze_stock.simps[of env titles s])
  next
    case (Inr x)
    show ?thesis
    proof (cases x)
      case (Continue s2)
      with Inr "1.prems" have run: "analyze_stock env titles s2 = Inr (r, s')"
        by (simp add: analyze_stock.simps[of env titles s])
      from "1.IH"[OF Inr Continue run] analyze_stock_body_continue[of env titles s s2] Inr Continue
      show ?thesis by simp
    next
      case (Return p)
      with Inr "1.prems" have "p = (r, s')"
        by (simp add: analyze_stock.simps[of env titles s])
      with Inr Return analyze_stock_body_return[of env titles s r s'] show ?thesis by simp
    qed
  qed
qed

subsection \<open>A sample environment\<close>

text \<open>
  A small environment over integers, a record it produces and a state that already holds
  that record, for the concrete runs below.
\<close>

definition sample_env :: "int env" where
  "sample_env =
     \<lparr>info_longName = (\<lambda>t. if t = ''AAPL'' then Some ''Apple Inc.'' else None),
      history = (\<lambda>t a b.
         [\<lparr>index = a, Open = 10, High = 14, Low = 9, Close = 12, Volume = 1234567\<rparr>,
          \<lparr>index = b, Open = 12, High = 15, Low = 11, Close = 13, Volume = 1000\<rparr>]),
      today = \<lparr>year = 2025, month = 1, day = 1\<rparr>,
      mean = (\<lambda>xs. sum_list xs div int (length xs)),
      series_max = (\<lambda>xs. fold max xs (hd xs)),
      series_min = (\<lambda>xs. fold min xs (hd xs)),
      pct_change_dropna = (\<lambda>xs. map (\<lambda>(x, y). (y - x) div x) (zip xs (tl xs))),
      std = (\<lambda>xs. 0),
      fsub = (-), fdiv = (div), fmul = (*), sqrt_252 = 16, hundred = 100,
      round_int = (\<lambda>x. x),
      fmt_fixed = (\<lambda>n x. fmt_commas x @ ''.'' @ replicate n CHR ''0'')\<rparr>"

definition sample_record :: dict where
  "sample_record =
     [(''stat1'', ''AAPL (Apple Inc.)''), (''stat2'', ''2024-01-02 to 2024-01-30''),
      (''stat3'', ''2''), (''stat4'', ''$10.00''), (''stat5'', ''$13.00''), (''stat6'', ''$12.00''),
      (''stat7'', ''$13.00''), (''stat8'', ''$15.00''), (''stat9'', ''$12.00''),
      (''stat10'', ''$9.00''), (''stat11'', ''0.000000''), (''stat12'', ''0.000000''),
      (''stat13'', ''0.0000%''), (''stat14'', ''617,783'')]"

definition sample_state :: state where
  "sample_state =
     \<lparr>stdin = ['' aapl'', ''2024-01-02'', ''2024-01-30''], stdout = [],
      files = (\<lambda>f. None), all_stocks = [sample_record]\<rparr>"

definition sample_ticker :: ticker_info where
  "sample_ticker = \<lparr>ticker = ''AAPL'', long_name = ''Apple Inc.''\<rparr>"

definition sample_start :: date where
  "sample_start = \<lparr>year = 2024, month = 1, day = 2\<rparr>"

definition sample_end :: date where
  "sample_end = \<lparr>year = 2024, month = 1, day = 30\<rparr>"

text \<open>
  C4. When the fetched table is empty, \<open>stock_summary_statistics\<close> returns \<open>None\<close>.
  Otherwise it returns a dictionary of exactly fourteen entries, keyed \<open>stat1\<close> to
  \<open>stat14\<close> in this order (the keys \<open>f"stat{i}"\<close> for \<open>i\<close> from 1 to 14): ticker and
  name, date range, number of trading days, opening price, closing price, average, highest
  and lowest closing price, highest and lowest intraday price, daily and annualized
  volatility, total return, average volume, each as the formatted text shown.
\<close>

theorem stock_summary_statistics_fourteen_strings:
  "stock_summary_statistics env tk a b =
     (let data = history env (ticker tk) a b; returns = pct_change_dropna env (map Close data) in
      if data = [] then None
      else Some
        [(''stat1'', ticker tk @ '' ('' @ long_name tk @ '')''),
         (''stat2'', isoformat (index (hd data)) @ '' to '' @ isoformat (index (last data))),
         (''stat3'', fmt_commas (int (length data))),
         (''stat4'', ''$'' @ fmt_fixed env 2 (Open (hd data))),
         (''stat5'', ''$'' @ fmt_fixed env 2 (Close (last data))),
         (''stat6'', ''$'' @ fmt_fixed env 2 (mean env (map Close data))),
         (''stat7'', ''$'' @ fmt_fixed env 2 (series_max env (map Close data))),
         (''stat8'', ''$'' @ fmt_fixed env 2 (series_max env (map High data))),
         (''stat9'', ''$'' @ fmt_fixed env 2 (series_min env (map Close data))),
         (''stat10'', ''$'' @ fmt_fixed env 2 (series_min env (map Low data))),
         (''stat11'', fmt_fixed env 6 (std env returns)),
         (''stat12'', fmt_fixed env 6 (fmul env (std env returns) (sqrt_252 env))),
         (''stat13'', fmt_fixed env 4
             (fmul env (fdiv env (fsub env (Close (last data)) (Open (hd data))) (Open (hd data)))
                (hundred env)) @ ''%''),
         (''stat14'', fmt_commas (round_int env (mean env (map Volume data))))])
   \<and> (case stock_summary_statistics env tk a b of
        None \<Rightarrow> history env (ticker tk) a b = []
      | Some d \<Rightarrow> history env (ticker tk) a b \<noteq> [] \<and> length d = 14 \<and>
          map fst d = map (\<lambda>i. ''stat'' @ str_nat i) [1..<15])"
proof -
  have "case stock_summary_statistics env tk a b of
        None \<Rightarrow> history env (ticker tk) a b = []
      | Some d \<Rightarrow> history env (ticker tk) a b \<noteq> [] \<and> length d = 14 \<and>
          map fst d = map (\<lambda>i. ''stat'' @ str_nat i) [1..<15]"
  proof (cases "stock_summary_statistics env tk a b")
    case None
    then show ?thesis by (simp add: stock_summary_statistics_eq Let_def split: if_splits)
  next
    case (Some d)
    from stock_summary_statistics_is_summary[OF Some]
    have "is_summary d" .
    moreover from Some have "history env (ticker tk) a b \<noteq> []"
      by (auto simp: stock_summary_statistics_eq Let_def split: if_splits)
    ultimately show ?thesis
      using Some is_summary_length[of d] by (simp add: is_summary_def stat_keys_def)
  qed
  then show ?thesis using stock_summary_statistics_eq[of env tk a b] by simp
qed

text \<open>
  C8. When the statistics that \<open>analyze_stock\<close> has computed carry the \<open>stat1\<close> and \<open>stat2\<close>
  of a record already in \<open>all_stocks\<close>, the rest of the function (the report, the search
  and the return, lines 200 to 220) returns that dictionary and leaves \<open>all_stocks\<close> as it
  was; and whenever a call of \<open>analyze_stock\<close> returns a dictionary whose \<open>stat1\<close> and
  \<open>stat2\<close> a record of \<open>all_stocks\<close> already had, the dictionary is one that
  \<open>stock_summary_statistics\<close> computed and \<open>all_stocks\<close> is unchanged: nothing appended,
  removed or altered. The first part takes the records of \<open>all_stocks\<close> to have the
  fourteen keys, as every record the program stores has.
\<close>

theorem analyze_stock_duplicate_frame:
  "(stock_summary_statistics env tk a b = Some d \<and>
    (\<forall>stock\<in>set (all_stocks s). is_summary stock) \<and>
    stock_key d \<in> stock_key ` set (all_stocks s) \<longrightarrow>
      (\<exists>s'. report_stock summary_statistics_titles tk a b d s = Inr (d, s') \<and>
            all_stocks s' = all_stocks s \<and> files s' = files s \<and> stdin s' = stdin s))
   \<and> (analyze_stock env titles s = Inr (r, s') \<and>
      stock_key r \<in> stock_key ` set (all_stocks s) \<longrightarrow>
        all_stocks s' = all_stocks s \<and> files s' = files s \<and>
        (\<exists>tk a b. stock_summary_statistics env tk a b = Some r))"
proof (rule conjI; rule impI)
  assume A: "stock_summary_statistics env tk a b = Some d \<and>
    (\<forall>stock\<in>set (all_stocks s). is_summary stock) \<and>
    stock_key d \<in> stock_key ` set (all_stocks s)"
  then have d: "is_summary d" by (auto dest: stock_summary_statistics_is_summary)
  let ?s1 = "py_print (''--'' @ nl @ ''**Note**:'' @ nl @
                ''If either the start or end date occurs on a day when the market was closed, the soonest succeeding day was chosen.''
                @ nl @ ''--'' @ nl)
      (py_print (''----------------------------------'' @ nl)
      (py_print (''Valid Date Range: '' @ isoformat a @ '' to '' @ isoformat b)
      (py_print (''Company: '' @ ticker tk @ '' ('' @ long_name tk @ '')'') s)))"
  have "set [0..<length d] \<subseteq> {0..<14}" using is_summary_length[OF d] by simp
  from print_stats_ok[OF d this, of summary_statistics_titles ?s1]
  obtain s2 where p: "print_stats summary_statistics_titles d [0..<length d] ?s1 = Inr s2"
    by (auto simp: summary_statistics_titles_def)
  from print_stats_frame[OF p]
  have f: "stdin s2 = stdin s" "all_stocks s2 = all_stocks s" "files s2 = files s"
    by simp_all
  have "already_analyzed (all_stocks s2) d = Inr True"
    using already_analyzed_total[of "all_stocks s2" d] A d f by simp
  then have "append_if_new d s2 = Inr (d, s2)" by (simp add: append_if_new_def)
  with p f show "\<exists>s'. report_stock summary_statistics_titles tk a b d s = Inr (d, s') \<and>
            all_stocks s' = all_stocks s \<and> files s' = files s \<and> stdin s' = stdin s"
    by (simp add: report_stock_def Let_def)
next
  assume B: "analyze_stock env titles s = Inr (r, s') \<and>
      stock_key r \<in> stock_key ` set (all_stocks s)"
  from analyze_stock_result[of env titles s r s'] B
  obtain tk a b d s1 where
    c: "stock_summary_statistics env tk a b = Some d" "all_stocks s1 = all_stocks s"
       "files s1 = files s" "append_if_new d s1 = Inr (r, s')"
    by blast
  from append_if_new_cases[OF c(4)] B c
  show "all_stocks s' = all_stocks s \<and> files s' = files s \<and>
        (\<exists>tk a b. stock_summary_statistics env tk a b = Some r)"
    by (auto split: if_splits)
qed

lemma sample_fmt_commas: "fmt_commas 2 = ''2''" "fmt_commas 10 = ''10''" "fmt_commas 13 = ''13''" "fmt_commas 12 = ''12''"
  "fmt_commas 15 = ''15''" "fmt_commas 9 = ''9''" "fmt_commas 0 = ''0''" "fmt_commas 617783 = ''617,783''"
  by (simp_all add: fmt_commas_def group3.simps str_nat.simps)

lemma sample_isoformat: "isoformat sample_start = ''2024-01-02''" "isoformat sample_end = ''2024-01-30''"
  by (simp_all add: isoformat_def zfill_def str_nat.simps sample_start_def sample_end_def)

lemma replicate_small: "replicate 2 x = [x, x]" "replicate 4 x = [x, x, x, x]" "replicate 6 x = [x, x, x, x, x, x]"
  by (simp_all add: numeral_eq_Suc)

lemma sample_statistics: "stock_summary_statistics sample_env sample_ticker sample_start sample_end
              = Some sample_record"
  by (simp add: stock_summary_statistics_eq sample_env_def sample_ticker_def sample_fmt_commas sample_isoformat sample_record_def Let_def replicate_small)

lemma sample_record_is_summary: "is_summary sample_record"
  by (simp add: is_summary_def stat_keys_eval sample_record_def)

lemma sample_upper: "upper (strip '' aapl'') = ''AAPL''"
  by code_simp

lemma sample_input_ticker: "input_ticker sample_env sample_state = Inr (Some sample_ticker, sample_state\<lparr>stdin := [''2024-01-02'', ''2024-01-30''], stdout := [''Please enter a stock ticker: '']\<rparr>)"
  by (simp add: input_ticker_def py_input_def sample_state_def validate_ticker_def sample_env_def sample_ticker_def sample_upper)

lemma sample_strptime: "strip ''2024-01-02'' = ''2024-01-02''" "strip ''2024-01-30'' = ''2024-01-30''"
   "strptime ''2024-01-02'' = Inr sample_start" "strptime ''2024-01-30'' = Inr sample_end"
  by code_simp+

lemma sample_input_start: "stdin s = [''2024-01-02'', ''2024-01-30''] \<Longrightarrow> input_date p s = Inr (Some sample_start, s\<lparr>stdin := [''2024-01-30''], stdout := stdout s @ [p]\<rparr>)"
  by (simp add: input_date_def py_input_def validate_date_def sample_strptime)

lemma sample_input_end: "stdin s = [''2024-01-30''] \<Longrightarrow> input_date p s = Inr (Some sample_end, s\<lparr>stdin := [], stdout := stdout s @ [p]\<rparr>)"
  by (simp add: input_date_def py_input_def validate_date_def sample_strptime)

lemma sample_dates_ordered: "date_less sample_start sample_end" "\<not> date_less (today sample_env) sample_start"
  "\<not> date_less (today sample_env) sample_end"
  by (simp_all add: date_less_def sample_start_def sample_end_def sample_env_def)

theorem analyze_stock_duplicate_frame_witness:
  "stock_summary_statistics sample_env sample_ticker sample_start sample_end = Some sample_record \<and>
   stock_key sample_record \<in> stock_key ` set (all_stocks sample_state) \<and>
   (\<exists>s'. report_stock summary_statistics_titles sample_ticker sample_start sample_end
            sample_record sample_state = Inr (sample_record, s') \<and>
         all_stocks s' = [sample_record]) \<and>
   (\<exists>s'. analyze_stock sample_env summary_statistics_titles sample_state = Inr (sample_record, s') \<and>
         all_stocks s' = [sample_record])"
proof -
  have a0: "all_stocks sample_state = [sample_record]"
    by (simp add: sample_state_def)
  have tail: "\<exists>s'. report_stock summary_statistics_titles sample_ticker sample_start sample_end
            sample_record s = Inr (sample_record, s') \<and> all_stocks s' = [sample_record]"
    if "all_stocks s = [sample_record]" for s
    using analyze_stock_duplicate_frame[where env = sample_env and tk = sample_ticker
        and a = sample_start and b = sample_end and d = sample_record and s = s
        and titles = summary_statistics_titles and r = sample_record and s' = s] sample_statistics sample_record_is_summary that
    by auto
  define s1 where "s1 = sample_state\<lparr>stdin := [''2024-01-02'', ''2024-01-30''],
      stdout := [''Please enter a stock ticker: '']\<rparr>"
  define s2 where "s2 = s1\<lparr>stdin := [''2024-01-30''],
      stdout := stdout s1 @ [''Please enter a start date(YYYY-MM-DD): '']\<rparr>"
  define s3 where "s3 = s2\<lparr>stdin := [],
      stdout := stdout s2 @ [''Please enter an end date(YYYY-MM-DD): '']\<rparr>"
  define s8 where "s8 = py_print ''-----------------------------''
      (py_print (nl @ ''.....Validating.....'' @ nl) s3)"
  have i1: "input_ticker sample_env sample_state = Inr (Some sample_ticker, s1)"
    by (simp add: sample_input_ticker s1_def)
  have i2: "input_date ''Please enter a start date(YYYY-MM-DD): '' s1 = Inr (Some sample_start, s2)"
    by (simp add: sample_input_start s1_def s2_def)
  have i3: "input_date ''Please enter an end date(YYYY-MM-DD): '' s2 = Inr (Some sample_end, s3)"
    by (simp add: sample_input_end s2_def s3_def)
  have "all_stocks s8 = [sample_record]"
    by (simp add: s8_def s3_def s2_def s1_def a0)
  from tail[OF this] obtain s' where
    r: "report_stock summary_statistics_titles sample_ticker sample_start sample_end
            sample_record s8 = Inr (sample_record, s')" "all_stocks s' = [sample_record]"
    by blast
  have ne: "sample_record \<noteq> []" by (simp add: sample_record_def)
  have "analyze_validated sample_env summary_statistics_titles sample_ticker sample_start sample_end s3
          = Inr (Return (sample_record, s'))"
    using r(1) ne by (simp add: analyze_validated_def Let_def sample_dates_ordered sample_statistics s8_def)
  then have "analyze_stock_body sample_env summary_statistics_titles sample_state
          = Inr (Return (sample_record, s'))"
    by (simp add: analyze_stock_body_def i1 i2 i3)
  then have "analyze_stock sample_env summary_statistics_titles sample_state = Inr (sample_record, s')"
    by (simp add: analyze_stock.simps[of sample_env summary_statistics_titles sample_state])
  with r(2) tail[OF a0] sample_statistics a0 show ?thesis by auto
qed

subsection \<open>The volatility figures\<close>












subsection \<open>CSV files\<close>

text \<open>
  A CSV file is the list of rows the \<open>csv\<close> module reads from it and writes to it, a row
  being a list of fields; quoting is the module's business. \<open>files s name = None\<close> is a
  file that does not exist, \<open>Some []\<close> an empty one.

  The files that have a list of rows here are the files of complete lines: the text is
  empty or ends in a line terminator, as the text of every file the program writes does,
  so that what \<open>open(filename, "a")\<close> adds starts a new line and is read back as new rows.
  A file whose last line is not terminated has no representation in \<open>files\<close>: an append to
  it continues that last line.
\<close>

text \<open>Lines 327 to 330 and 396 to 399.\<close>

definition cleaned_titles :: "string list \<Rightarrow> string list" where
  "cleaned_titles titles =
     map (\<lambda>title. replace CHR '' '' ''_'' (lower (strip_chars '': '' title))) titles"

text \<open>
  The comprehension \<open>{title: sum_stats[f"stat{i + 1}"] for i, title in enumerate(titles)}\<close>,
  from index \<open>i\<close> on, into the dictionary built so far.
\<close>

fun row_of_stats :: "string list \<Rightarrow> dict \<Rightarrow> nat \<Rightarrow> dict \<Rightarrow> exn + dict" where
  "row_of_stats [] sum_stats i acc = Inr acc"
| "row_of_stats (title # rest) sum_stats i acc =
     (case getitem sum_stats (''stat'' @ str_nat (i + 1)) of
        Inl e \<Rightarrow> Inl e
      | Inr v \<Rightarrow> row_of_stats rest sum_stats (i + 1) (setitem acc title v))"

text \<open>
  \<open>csv.DictReader\<close>: the first row gives the field names; every later row that is not
  blank becomes a dictionary from field names to fields, a later field of the same name
  replacing an earlier one, and the names a short row does not reach mapped to \<open>None\<close>.
  (The fields of an over-long row beyond the names go under the key \<open>None\<close>, which no
  string key reads; they are left out.)
\<close>

type_synonym reader_row = "(string \<times> string option) list"

definition dict_reader_row :: "string list \<Rightarrow> string list \<Rightarrow> reader_row" where
  "dict_reader_row fieldnames row =
     (let d = foldl (\<lambda>d (k, v). AList.update k (Some v) d) [] (zip fieldnames row)
      in if length row < length fieldnames
         then foldl (\<lambda>d k. AList.update k None d) d (drop (length row) fieldnames)
         else d)"

definition DictReader :: "string list list \<Rightarrow> reader_row list" where
  "DictReader rows =
     (case rows of
        [] \<Rightarrow> []
      | fieldnames # data \<Rightarrow> map (dict_reader_row fieldnames) (filter (\<lambda>row. row \<noteq> []) data))"

text \<open>
  Lines 345 to 348: \<open>row["date_range"]\<close> raises \<open>KeyError\<close> when the file has no such
  column.
\<close>

fun find_duplicate :: "reader_row list \<Rightarrow> dict \<Rightarrow> exn + bool" where
  "find_duplicate [] new_row = Inr False"
| "find_duplicate (row # rest) new_row =
     (case map_of row ''date_range'' of
        None \<Rightarrow> Inl (KeyError ''date_range'')
      | Some v \<Rightarrow>
          (case getitem new_row ''date_range'' of
             Inl e \<Rightarrow> Inl e
           | Inr w \<Rightarrow> if v = Some w then Inr True else find_duplicate rest new_row))"

text \<open>
  \<open>csv.DictWriter(file, fieldnames).writerow(rowdict)\<close>: the row written, in the order of
  the field names; a key that is no field name raises \<open>ValueError\<close>.
\<close>

definition writer_row :: "string list \<Rightarrow> dict \<Rightarrow> exn + string list" where
  "writer_row fieldnames rowdict =
     (if list_ex (\<lambda>k. k \<notin> set fieldnames) (map fst rowdict)
      then Inl (ValueError ''dict contains fields not in fieldnames'')
      else Inr (map (\<lambda>k. case map_of rowdict k of None \<Rightarrow> [] | Some v \<Rightarrow> v) fieldnames))"

text \<open>Lines 316 to 365.\<close>

definition save_one_stock_to_csv :: "dict \<Rightarrow> string list \<Rightarrow> state \<Rightarrow> exn + state" where
  "save_one_stock_to_csv sum_stats titles s =
     (let cleaned = cleaned_titles titles in
      case getitem sum_stats ''stat1'' of Inl e \<Rightarrow> Inl e | Inr stat1 \<Rightarrow>
     (case getitem sum_stats ''stat2'' of Inl e \<Rightarrow> Inl e | Inr stat2 \<Rightarrow>
     (let filename = split_first CHR '' '' stat1 @ ''_'' @ replace CHR '' '' ''_'' stat2 @ ''.csv'' in
      case row_of_stats cleaned sum_stats 0 [] of Inl e \<Rightarrow> Inl e | Inr new_row \<Rightarrow>
     (case (case files s filename of
              None \<Rightarrow> Inr (False, False)
            | Some rows \<Rightarrow>
                (case find_duplicate (DictReader rows) new_row of
                   Inl e \<Rightarrow> Inl e
                 | Inr duplicate \<Rightarrow> Inr (True, duplicate)))
      of Inl e \<Rightarrow> Inl e
       | Inr (file_exists, duplicate) \<Rightarrow>
          if duplicate then
            Inr (py_print (nl @ ''--'' @ nl @ ''Stock data for '' @ stat1 @ '' from '' @ stat2 @
                   '' is already saved in '' @ filename @ ''.'' @ nl @ ''--'') s)
          else
            (case writer_row cleaned new_row of
               Inl e \<Rightarrow> Inl e
             | Inr values \<Rightarrow>
                 (let old = (case files s filename of None \<Rightarrow> [] | Some rows \<Rightarrow> rows);
                      s = s\<lparr>files := (files s)(filename \<mapsto>
                             old @ (if file_exists then [] else [cleaned]) @ [values])\<rparr>;
                      s = py_print (nl @ ''.....Saving.....'' @ nl) s
                  in Inr (py_print (''Data saved to '' @ filename) s)))))))"

text \<open>Lines 401 to 403: \<open>while not filename: filename = input(...).strip()\<close>.\<close>

function filename_loop :: "string \<Rightarrow> state \<Rightarrow> exn + (string \<times> state)" where
  "filename_loop filename s =
     (if filename \<noteq> [] then Inr (filename, s)
      else (case py_input ''Please enter a filename: '' s of
              Inl e \<Rightarrow> Inl e
            | Inr (l, s') \<Rightarrow> filename_loop (strip l) s'))"
  by pat_completeness auto
termination
  by (relation "measure (\<lambda>(f, s). length (stdin s))") (auto dest: py_input_decreases)

declare filename_loop.simps [simp del]

text \<open>Lines 404 to 407.\<close>

definition csv_filename :: "string \<Rightarrow> string" where
  "csv_filename filename =
     (let filename = (if \<not> endswith filename ''.csv'' then filename @ ''.csv'' else filename)
      in if CHR '' '' \<in> set filename then replace CHR '' '' ''_'' filename else filename)"

text \<open>Lines 409 to 415 and 429 to 430: one dictionary per record, one row per dictionary.\<close>

fun rows_of_stocks :: "string list \<Rightarrow> dict list \<Rightarrow> exn + dict list" where
  "rows_of_stocks cleaned [] = Inr []"
| "rows_of_stocks cleaned (stock # rest) =
     (case row_of_stats cleaned stock 0 [] of
        Inl e \<Rightarrow> Inl e
      | Inr row \<Rightarrow>
          (case rows_of_stocks cleaned rest of Inl e \<Rightarrow> Inl e | Inr rows \<Rightarrow> Inr (row # rows)))"

fun writerows :: "string list \<Rightarrow> dict list \<Rightarrow> exn + string list list" where
  "writerows fieldnames [] = Inr []"
| "writerows fieldnames (row # rest) =
     (case writer_row fieldnames row of
        Inl e \<Rightarrow> Inl e
      | Inr values \<Rightarrow>
          (case writerows fieldnames rest of Inl e \<Rightarrow> Inl e | Inr written \<Rightarrow> Inr (values # written)))"

text \<open>Lines 384 to 433.\<close>

definition save_all_to_csv :: "string list \<Rightarrow> state \<Rightarrow> exn + state" where
  "save_all_to_csv titles s =
     (let cleaned = cleaned_titles titles in
      case filename_loop [] s of Inl e \<Rightarrow> Inl e | Inr (filename, s) \<Rightarrow>
     (let filename = csv_filename filename in
      case rows_of_stocks cleaned (all_stocks s) of Inl e \<Rightarrow> Inl e | Inr rows \<Rightarrow>
     (let file_exists = (files s filename \<noteq> None) in
      case writerows cleaned rows of Inl e \<Rightarrow> Inl e | Inr written \<Rightarrow>
     (let old = (case files s filename of None \<Rightarrow> [] | Some present \<Rightarrow> present);
          s = s\<lparr>files := (files s)(filename \<mapsto>
                 old @ (if file_exists then [] else [cleaned]) @ written)\<rparr>;
          s = py_print (nl @ ''.....Saving.....'' @ nl) s
      in Inr (py_print (''Data saved to '' @ filename) s)))))"



text \<open>A line that is empty once stripped.\<close>

definition blank :: "string \<Rightarrow> bool" where
  "blank l = (strip l = [])"




definition empty_file_state :: state where
  "empty_file_state = sample_state\<lparr>files :=
     (\<lambda>f. if f = ''AAPL_2024-01-02_to_2024-01-30.csv'' then Some [] else None)\<rparr>"


definition saved_state :: state where
  "saved_state = sample_state\<lparr>stdin := [''out''], files :=
     (\<lambda>f. if f = ''out.csv''
          then Some [cleaned_titles summary_statistics_titles, map snd sample_record]
          else None)\<rparr>"


subsection \<open>Rows of a statistics record\<close>

lemma cleaned_titles_eval:
  "cleaned_titles summary_statistics_titles =
     [''company'', ''date_range'', ''total_trading_days'', ''opening_price'', ''closing_price'',
      ''average_closing_price'', ''highest_closing_price'', ''highest_intraday_price'',
      ''lowest_closing_price'', ''lowest_intraday_price'', ''daily_price_volatility'',
      ''annualized_price_volatility'', ''total_return_(%)'', ''average_daily_volume'']"
  by code_simp

lemma stat_keys_nth: "i < 14 \<Longrightarrow> stat_keys ! i = ''stat'' @ str_nat (Suc i)"
  by (simp add: stat_keys_def)

lemma stat_keys_distinct: "distinct stat_keys"
  by (simp add: stat_keys_eval)

lemma getitem_nth:
  assumes "is_summary d" and "i < 14"
  shows "getitem d (''stat'' @ str_nat (Suc i)) = Inr (snd (d ! i))"
proof -
  have len: "length d = 14" using assms(1) by (rule is_summary_length)
  have keys: "map fst d = stat_keys" using assms(1) by (simp add: is_summary_def)
  have "fst (d ! i) = stat_keys ! i"
    using keys len assms(2) by (metis nth_map)
  then have k: "fst (d ! i) = ''stat'' @ str_nat (Suc i)"
    using assms(2) by (simp add: stat_keys_nth)
  have "distinct (map fst d)" using keys stat_keys_distinct by simp
  moreover have "(fst (d ! i), snd (d ! i)) \<in> set d"
    using len assms(2) by simp
  ultimately have "map_of d (fst (d ! i)) = Some (snd (d ! i))"
    by (rule map_of_is_SomeI)
  with k show ?thesis by (simp add: getitem_def)
qed

lemma update_fresh: "k \<notin> fst ` set al \<Longrightarrow> AList.update k v al = al @ [(k, v)]"
  by (induction al) auto

lemma row_of_stats_summary:
  assumes d: "is_summary d"
  shows "i + length ts = 14 \<Longrightarrow> distinct (map fst acc @ ts) \<Longrightarrow>
         row_of_stats ts d i acc = Inr (acc @ zip ts (map snd (drop i d)))"
proof (induction ts arbitrary: i acc)
  case Nil
  then show ?case by simp
next
  case (Cons t ts)
  have len: "length d = 14" using d by (rule is_summary_length)
  from Cons.prems have i: "i < 14" by simp
  have g: "getitem d (''stat'' @ str_nat (Suc i)) = Inr (snd (d ! i))"
    using getitem_nth[OF d i] by simp
  have fresh: "t \<notin> fst ` set acc" using Cons.prems(2) by auto
  have dr: "drop i d = d ! i # drop (Suc i) d"
    using i len by (simp add: Cons_nth_drop_Suc)
  have "row_of_stats ts d (i + 1) (acc @ [(t, snd (d ! i))])
          = Inr ((acc @ [(t, snd (d ! i))]) @ zip ts (map snd (drop (i + 1) d)))"
    using Cons.prems by (intro Cons.IH) auto
  then show ?case
    using g by (simp add: setitem_def update_fresh[OF fresh] dr)
qed

lemma writer_row_zip:
  assumes "distinct ks" and "length vs = length ks"
  shows "writer_row ks (zip ks vs) = Inr vs"
proof -
  have "map (\<lambda>k. case map_of (zip ks vs) k of None \<Rightarrow> [] | Some v \<Rightarrow> v) ks = vs"
  proof (rule nth_equalityI)
    show "length (map (\<lambda>k. case map_of (zip ks vs) k of None \<Rightarrow> [] | Some v \<Rightarrow> v) ks) = length vs"
      using assms by simp
  next
    fix i assume "i < length (map (\<lambda>k. case map_of (zip ks vs) k of None \<Rightarrow> [] | Some v \<Rightarrow> v) ks)"
    then have i: "i < length ks" by simp
    then have "map_of (zip ks vs) (ks ! i) = Some (vs ! i)"
      using assms by (simp add: map_of_zip_nth)
    with i show "map (\<lambda>k. case map_of (zip ks vs) k of None \<Rightarrow> [] | Some v \<Rightarrow> v) ks ! i = vs ! i"
      by simp
  qed
  moreover have "\<not> list_ex (\<lambda>k. k \<notin> set ks) (map fst (zip ks vs))"
    using assms by (simp add: list_ex_iff)
  ultimately show ?thesis by (simp add: writer_row_def)
qed

lemma cleaned_distinct: "distinct (cleaned_titles summary_statistics_titles)"
  by (simp add: cleaned_titles_eval)

lemma cleaned_length: "length (cleaned_titles summary_statistics_titles) = 14"
  by (simp add: cleaned_titles_eval)

lemma new_row_summary:
  assumes "is_summary d"
  shows "row_of_stats (cleaned_titles summary_statistics_titles) d 0 []
           = Inr (zip (cleaned_titles summary_statistics_titles) (map snd d))"
  using row_of_stats_summary[OF assms, of 0 "cleaned_titles summary_statistics_titles" "[]"]
  by (simp add: cleaned_length cleaned_distinct)

lemma written_summary:
  assumes "is_summary d"
  shows "writer_row (cleaned_titles summary_statistics_titles)
           (zip (cleaned_titles summary_statistics_titles) (map snd d)) = Inr (map snd d)"
  using is_summary_length[OF assms]
  by (intro writer_row_zip) (simp_all add: cleaned_distinct cleaned_length)










lemma sample_filename:
  "split_first CHR '' '' ''AAPL (Apple Inc.)'' @ ''_'' @
     replace CHR '' '' ''_'' ''2024-01-02 to 2024-01-30'' @ ''.csv''
   = ''AAPL_2024-01-02_to_2024-01-30.csv''"
  by (simp add: split_first_def replace_def)

lemma sample_record_stats:
  "map_of sample_record ''stat1'' = Some ''AAPL (Apple Inc.)''"
  "map_of sample_record ''stat2'' = Some ''2024-01-02 to 2024-01-30''"
  by (simp_all add: sample_record_def)


lemma filename_loop_run:
  "filename_loop f s =
     (if f \<noteq> [] then Inr (f, s)
      else (case dropWhile blank (stdin s) of
              [] \<Rightarrow> Inl EOFError
            | x # rest \<Rightarrow>
                Inr (strip x,
                     s\<lparr>stdin := rest,
                       stdout := stdout s @ replicate (Suc (length (takeWhile blank (stdin s))))
                         ''Please enter a filename: ''\<rparr>)))"
proof (induction f s rule: filename_loop.induct)
  case (1 f s)
  show ?case
  proof (cases "f \<noteq> []")
    case True
    then show ?thesis by (simp add: filename_loop.simps)
  next
    case False
    then have f: "f = []" by simp
    show ?thesis
    proof (cases "stdin s")
      case Nil
      with f show ?thesis by (simp add: filename_loop.simps[of "[]" s] py_input_def)
    next
      case (Cons l ls)
      let ?s' = "s\<lparr>stdin := ls, stdout := stdout s @ [''Please enter a filename: '']\<rparr>"
      have inp: "py_input ''Please enter a filename: '' s = Inr (l, ?s')"
        by (simp add: py_input_def Cons)
      have nf: "\<not> f \<noteq> []" using f by simp
      note IH = "1.IH"[OF nf inp refl]
      have unf: "filename_loop f s = filename_loop (strip l) ?s'"
        using f by (subst filename_loop.simps) (simp add: inp)
      show ?thesis
      proof (cases "blank l")
        case True
        then have "strip l = []" by (simp add: blank_def)
        with True f Cons show ?thesis
          unfolding unf IH
          by (cases "dropWhile blank ls")
            (simp_all add: replicate_append_same del: dropWhile_eq_Nil_conv)
      next
        case nb: False
        then have "strip l \<noteq> []" by (simp add: blank_def)
        with nb f Cons show ?thesis
          unfolding unf IH by simp
      qed
    qed
  qed
qed

lemma endswith_iff: "endswith s suffix = (\<exists>p. s = p @ suffix)"
proof
  assume "endswith s suffix"
  then have "s = take (length s - length suffix) s @ suffix"
    by (metis append_take_drop_id endswith_def)
  then show "\<exists>p. s = p @ suffix" ..
next
  assume "\<exists>p. s = p @ suffix"
  then show "endswith s suffix" by (auto simp: endswith_def)
qed

lemma replace_append: "replace c new (a @ b) = replace c new a @ replace c new b"
  by (simp add: replace_def)

lemma replace_absent: "c \<notin> set s \<Longrightarrow> replace c new s = s"
  by (induction s) (auto simp: replace_def)

lemma replace_removes: "c \<notin> set new \<Longrightarrow> c \<notin> set (replace c new s)"
  by (induction s) (auto simp: replace_def)

lemma csv_filename_eq:
  "csv_filename n = replace CHR '' '' ''_'' (if endswith n ''.csv'' then n else n @ ''.csv'')"
  by (auto simp: csv_filename_def Let_def replace_absent)

lemma csv_filename_props:
  "csv_filename n \<noteq> [] \<and> endswith (csv_filename n) ''.csv'' \<and> CHR '' '' \<notin> set (csv_filename n)"
proof -
  let ?m = "if endswith n ''.csv'' then n else n @ ''.csv''"
  have "endswith ?m ''.csv''" by (auto simp: endswith_iff)
  then obtain p where p: "?m = p @ ''.csv''" by (auto simp: endswith_iff)
  have "replace CHR '' '' ''_'' ?m = replace CHR '' '' ''_'' p @ ''.csv''"
    unfolding p replace_append by (simp add: replace_def)
  then have e: "csv_filename n = replace CHR '' '' ''_'' p @ ''.csv''"
    by (simp only: csv_filename_eq)
  have "CHR '' '' \<notin> set (csv_filename n)"
    unfolding csv_filename_eq by (rule replace_removes) simp
  with e show ?thesis by (auto simp: endswith_iff)
qed

lemma rows_of_stocks_summary:
  "\<forall>stock\<in>set stocks. is_summary stock \<Longrightarrow>
     rows_of_stocks (cleaned_titles summary_statistics_titles) stocks =
       Inr (map (\<lambda>d. zip (cleaned_titles summary_statistics_titles) (map snd d)) stocks)"
  by (induction stocks) (simp_all add: new_row_summary)

lemma writerows_summary:
  "\<forall>stock\<in>set stocks. is_summary stock \<Longrightarrow>
     writerows (cleaned_titles summary_statistics_titles)
       (map (\<lambda>d. zip (cleaned_titles summary_statistics_titles) (map snd d)) stocks) =
       Inr (map (map snd) stocks)"
  by (induction stocks) (simp_all add: written_summary)

lemma save_all_run:
  assumes "\<forall>stock\<in>set (all_stocks s). is_summary stock"
  shows "save_all_to_csv summary_statistics_titles s =
     (case dropWhile blank (stdin s) of
        [] \<Rightarrow> Inl EOFError
      | x # rest \<Rightarrow>
          Inr (py_print (''Data saved to '' @ csv_filename (strip x))
                (py_print (nl @ ''.....Saving.....'' @ nl)
                  (s\<lparr>stdin := rest,
                     stdout := stdout s @ replicate (Suc (length (takeWhile blank (stdin s))))
                        ''Please enter a filename: '',
                     files := (files s)(csv_filename (strip x) \<mapsto>
                        (case files s (csv_filename (strip x)) of
                           None \<Rightarrow> [cleaned_titles summary_statistics_titles]
                         | Some present \<Rightarrow> present) @ map (map snd) (all_stocks s))\<rparr>))))"
proof (cases "dropWhile blank (stdin s)")
  case Nil
  then show ?thesis
    by (simp add: save_all_to_csv_def Let_def filename_loop_run del: dropWhile_eq_Nil_conv)
next
  case (Cons x rest)
  show ?thesis
    using Cons rows_of_stocks_summary[OF assms] writerows_summary[OF assms]
    by (cases "files s (csv_filename (strip x))")
      (simp_all add: save_all_to_csv_def Let_def filename_loop_run del: dropWhile_eq_Nil_conv)
qed

lemma sample_blank: "blank '' ''" "\<not> blank '' my out ''" "strip '' my out '' = ''my out''"
  "\<not> blank ''out''" "strip ''out'' = ''out''"
  by (code_simp+)

lemma sample_csv_filename: "csv_filename ''my out'' = ''my_out.csv''" "csv_filename ''out'' = ''out.csv''"
  by (simp_all add: csv_filename_def endswith_def replace_def)




subsection \<open>The per-stock save\<close>





text \<open>
  Outside the proviso the function does not keep the file free of repeated rows either.
  When the reader yields no row (the file is empty, or holds one row only, which the
  reader takes for the header), a row is appended and no header is written, the file
  being there. So on a file that exists and is empty, the first save writes the row with
  no header above it, and a second save of the same record, reading that row as the
  header, appends the row again.
\<close>

lemma save_one_stock_to_csv_no_data_row:
  assumes sm: "is_summary sum_stats"
      and s1: "map_of sum_stats ''stat1'' = Some stat1"
      and s2: "map_of sum_stats ''stat2'' = Some stat2"
      and fn: "filename = split_first CHR '' '' stat1 @ ''_'' @ replace CHR '' '' ''_'' stat2 @ ''.csv''"
      and fl: "files s filename = Some rows"
      and nr: "DictReader rows = []"
  shows "save_one_stock_to_csv sum_stats summary_statistics_titles s =
     Inr (py_print (''Data saved to '' @ filename) (py_print (nl @ ''.....Saving.....'' @ nl)
       (s\<lparr>files := (files s)(filename \<mapsto> rows @ [map snd sum_stats])\<rparr>)))"
proof -
  have g1: "getitem sum_stats ''stat1'' = Inr stat1" and g2: "getitem sum_stats ''stat2'' = Inr stat2"
    using s1 s2 by (simp_all add: getitem_def)
  show ?thesis
    using fl nr unfolding save_one_stock_to_csv_def Let_def fn
    by (simp add: g1 g2 new_row_summary[OF sm] written_summary[OF sm])
qed

lemma save_one_stock_to_csv_empty_file:
  "files empty_file_state ''AAPL_2024-01-02_to_2024-01-30.csv'' = Some [] \<and>
   (\<exists>s1 s2.
      save_one_stock_to_csv sample_record summary_statistics_titles empty_file_state = Inr s1 \<and>
      files s1 ''AAPL_2024-01-02_to_2024-01-30.csv'' = Some [map snd sample_record] \<and>
      save_one_stock_to_csv sample_record summary_statistics_titles s1 = Inr s2 \<and>
      files s2 ''AAPL_2024-01-02_to_2024-01-30.csv'' =
        Some [map snd sample_record, map snd sample_record])"
proof -
  let ?fn = "''AAPL_2024-01-02_to_2024-01-30.csv''"
  let ?s1 = "py_print (''Data saved to '' @ ?fn) (py_print (nl @ ''.....Saving.....'' @ nl)
       (empty_file_state\<lparr>files := (files empty_file_state)(?fn \<mapsto> [] @ [map snd sample_record])\<rparr>))"
  let ?s2 = "py_print (''Data saved to '' @ ?fn) (py_print (nl @ ''.....Saving.....'' @ nl)
       (?s1\<lparr>files := (files ?s1)(?fn \<mapsto> [map snd sample_record] @ [map snd sample_record])\<rparr>))"
  have f0: "files empty_file_state ?fn = Some []"
    by (simp add: empty_file_state_def)
  have f1: "files ?s1 ?fn = Some [map snd sample_record]"
    by (simp add: py_print_def)
  have r1: "save_one_stock_to_csv sample_record summary_statistics_titles empty_file_state = Inr ?s1"
    by (rule save_one_stock_to_csv_no_data_row[OF sample_record_is_summary sample_record_stats
          sample_filename[symmetric] f0]) (simp add: DictReader_def)
  have r2: "save_one_stock_to_csv sample_record summary_statistics_titles ?s1 = Inr ?s2"
    by (rule save_one_stock_to_csv_no_data_row[OF sample_record_is_summary sample_record_stats
          sample_filename[symmetric] f1]) (simp add: DictReader_def)
  have f2: "files ?s2 ?fn = Some [map snd sample_record, map snd sample_record]"
    by (simp add: py_print_def)
  from f0 f1 r1 r2 f2 show ?thesis by blast
qed


subsection \<open>The save of all records\<close>

text \<open>
  C9. \<open>save_all_to_csv\<close> prompts until a line is not blank, and writes to the file named
  \<open>csv_filename\<close> of that line stripped, and to no other file. \<open>csv_filename\<close> appends
  \<open>.csv\<close> exactly when it is missing and then replaces every space by an underscore; its
  result is never empty, always ends in \<open>.csv\<close> and holds no space. (The records of
  \<open>all_stocks\<close> are taken to have the fourteen keys, as every stored record has; when the
  input ends before a line that is not blank, \<open>input\<close> raises \<open>EOFError\<close>.)
\<close>

theorem save_all_to_csv_filename:
  assumes "\<forall>stock\<in>set (all_stocks s). is_summary stock"
  shows "save_all_to_csv summary_statistics_titles s =
     (case dropWhile blank (stdin s) of
        [] \<Rightarrow> Inl EOFError
      | x # rest \<Rightarrow>
          Inr (py_print (''Data saved to '' @ csv_filename (strip x))
                (py_print (nl @ ''.....Saving.....'' @ nl)
                  (s\<lparr>stdin := rest,
                     stdout := stdout s @ replicate (Suc (length (takeWhile blank (stdin s))))
                        ''Please enter a filename: '',
                     files := (files s)(csv_filename (strip x) \<mapsto>
                        (case files s (csv_filename (strip x)) of
                           None \<Rightarrow> [cleaned_titles summary_statistics_titles]
                         | Some present \<Rightarrow> present) @ map (map snd) (all_stocks s))\<rparr>))))
   \<and> blank l = (strip l = [])
   \<and> csv_filename n = replace CHR '' '' ''_'' (if endswith n ''.csv'' then n else n @ ''.csv'')
   \<and> csv_filename n \<noteq> [] \<and> endswith (csv_filename n) ''.csv'' \<and> CHR '' '' \<notin> set (csv_filename n)"
  using save_all_run[OF assms] csv_filename_props[of n] csv_filename_eq[of n]
  by (simp add: blank_def)


theorem save_all_to_csv_filename_witness:
  "save_all_to_csv summary_statistics_titles (sample_state\<lparr>stdin := ['' '', '' my out '', ''x'']\<rparr>) =
     Inr (py_print ''Data saved to my_out.csv''
           (py_print (nl @ ''.....Saving.....'' @ nl)
             (sample_state\<lparr>stdin := [''x''],
                stdout := [''Please enter a filename: '', ''Please enter a filename: ''],
                files := (files sample_state)(''my_out.csv'' \<mapsto>
                  [cleaned_titles summary_statistics_titles, map snd sample_record])\<rparr>)))"
proof -
  have a: "\<forall>stock\<in>set (all_stocks (sample_state\<lparr>stdin := ['' '', '' my out '', ''x'']\<rparr>)). is_summary stock"
    by (simp add: sample_state_def sample_record_is_summary)
  have f: "files sample_state ''my_out.csv'' = None" "stdout sample_state = []"
     "all_stocks sample_state = [sample_record]"
    by (simp_all add: sample_state_def)
  from save_all_to_csv_filename[OF a, of "''x''" "''x''"] show ?thesis
    by (simp add: sample_blank sample_csv_filename f numeral_2_eq_2)
qed


text \<open>
  C2 fails for the save of all records: it opens the file for reading only to learn
  whether it exists, and appends every record. With \<open>out.csv\<close> holding the header and the
  row of the one record in \<open>all_stocks\<close>, entering \<open>out\<close> appends that row a second time.
\<close>

theorem save_all_to_csv_repeats_saved_row:
  "files saved_state ''out.csv'' =
     Some [cleaned_titles summary_statistics_titles, map snd sample_record] \<and>
   all_stocks saved_state = [sample_record] \<and>
   (\<exists>s'. save_all_to_csv summary_statistics_titles saved_state = Inr s' \<and>
     files s' ''out.csv'' =
       Some [cleaned_titles summary_statistics_titles, map snd sample_record, map snd sample_record])"
proof -
  have a: "\<forall>stock\<in>set (all_stocks saved_state). is_summary stock"
    by (simp add: saved_state_def sample_state_def sample_record_is_summary)
  have f: "files saved_state ''out.csv'' =
     Some [cleaned_titles summary_statistics_titles, map snd sample_record]"
     "all_stocks saved_state = [sample_record]" "stdin saved_state = [''out'']"
    by (simp_all add: saved_state_def sample_state_def)
  from save_all_run[OF a] f show ?thesis
    by (simp add: sample_blank sample_csv_filename py_print_def)
qed

subsection \<open>list\_stocks and view\_stock\_graph\<close>

text \<open>Lines 368 to 381.\<close>

fun list_stocks_loop :: "string list \<Rightarrow> dict list \<Rightarrow> state \<Rightarrow> exn + state" where
  "list_stocks_loop titles [] s = Inr s"
| "list_stocks_loop titles (stock # rest) s =
     (case print_stats titles stock [0..<length stock] s of
        Inl e \<Rightarrow> Inl e
      | Inr s \<Rightarrow> list_stocks_loop titles rest (py_print (''--'' @ nl) s))"

definition list_stocks :: "string list \<Rightarrow> state \<Rightarrow> exn + state" where
  "list_stocks titles s =
     list_stocks_loop titles (all_stocks s)
       (py_print (nl @ ''All Analyzed Stocks:'' @ nl @ ''-----****-----'') s)"

text \<open>\<open>s.split(sep)\<close> for a separator that is not empty.\<close>

function split_on :: "string \<Rightarrow> string \<Rightarrow> string \<Rightarrow> string list" where
  "split_on sep part s =
     (if s = [] \<or> sep = [] then [part]
      else if take (length sep) s = sep then part # split_on sep [] (drop (length sep) s)
      else split_on sep (part @ [hd s]) (tl s))"
  by pat_completeness auto
termination
  by (relation "measure (\<lambda>(sep, part, s). length s)") auto

declare split_on.simps [simp del]

text \<open>Lines 448 and 449: one line per record.\<close>

fun print_stock_lines :: "dict list \<Rightarrow> nat \<Rightarrow> state \<Rightarrow> exn + state" where
  "print_stock_lines [] i s = Inr s"
| "print_stock_lines (stock # rest) i s =
     (case getitem stock ''stat1'' of Inl e \<Rightarrow> Inl e | Inr stat1 \<Rightarrow>
     (case getitem stock ''stat2'' of Inl e \<Rightarrow> Inl e | Inr stat2 \<Rightarrow>
        print_stock_lines rest (i + 1)
          (py_print (str_nat (i + 1) @ ''. '' @ stat1 @ '' ~ '' @ stat2) s)))"

lemma exit_menu_frame:
  assumes "exit_menu s = Inr s'"
  shows "length (stdin s') < length (stdin s) \<and> all_stocks s' = all_stocks s \<and> files s' = files s"
proof (cases "stdin s")
  case Nil
  with assms show ?thesis by (simp add: exit_menu_def py_input_def)
next
  case (Cons l ls)
  let ?s1 = "s\<lparr>stdin := ls, stdout := stdout s @
      [''Are you sure you wish to exit? All analyzed stocks will be lost [y/N]: '']\<rparr>"
  from assms Cons have run: "exit_loop (lower (strip l)) ?s1 = Inr s'"
    by (simp add: exit_menu_def py_input_def)
  have le: "length (dropWhile undecided ls) \<le> length ls"
    by (rule length_dropWhile_le)
  show ?thesis
  proof (cases "dropWhile undecided ls")
    case Nil
    with run \<open>stdin s = l # ls\<close> show ?thesis
      by (auto simp: exit_loop_run split: if_splits simp del: dropWhile_eq_Nil_conv)
  next
    case (Cons x rest)
    with le have "length rest < length ls" by simp
    with run Cons \<open>stdin s = l # ls\<close> show ?thesis
      by (auto simp: exit_loop_run split: if_splits simp del: dropWhile_eq_Nil_conv)
  qed
qed

text \<open>
  Lines 456 to 479. The loop ends with \<open>Inl b\<close> when the function returns \<open>b\<close> from inside
  it, and with \<open>Inr n\<close> when it breaks with \<open>stock_number = n\<close>.
\<close>

function select_stock :: "nat \<Rightarrow> state \<Rightarrow> exn + ((bool + int) \<times> state)" where
  "select_stock len s =
     (case py_input ''Which stock would you like to view? (Enter the Number): '' s of
        Inl e \<Rightarrow> Inl e
      | Inr (l, s1) \<Rightarrow>
          (case py_int (strip l) of
             Inl e \<Rightarrow> select_stock len (py_print ''Invalid input. Please try again.'' s1)
           | Inr stock_number \<Rightarrow>
               if \<not> (1 \<le> stock_number \<and> stock_number \<le> int len + 3) then
                 select_stock len
                   (py_print (''Invalid input. You must input a number between 1 and '' @
                      str_nat (len + 3)) s1)
               else if stock_number = int len + 1 then Inr (Inl False, s1)
               else if stock_number = int len + 2 then Inr (Inl True, s1)
               else if stock_number = int len + 3 then
                 (case exit_menu s1 of Inl e \<Rightarrow> Inl e | Inr s2 \<Rightarrow> select_stock len s2)
               else Inr (Inr stock_number, s1)))"
  by pat_completeness auto
termination
  by (relation "measure (\<lambda>(len, s). length (stdin s))")
    (auto dest!: py_input_decreases exit_menu_frame)

declare select_stock.simps [simp del]

text \<open>
  Lines 436 to 547. The table fetched for the plot and the plot itself leave no trace in
  the state; the unpacking of \<open>stat2.split(" to ")\<close> into two names raises \<open>ValueError\<close>
  unless there are exactly two parts.
\<close>

definition view_stock_graph :: "state \<Rightarrow> exn + (bool \<times> state)" where
  "view_stock_graph s =
     (let len = length (all_stocks s);
          s = py_print (''---------------'' @ nl @ ''Below are all of the stocks you have analyzed:'') s
      in case print_stock_lines (all_stocks s) 0 s of Inl e \<Rightarrow> Inl e | Inr s \<Rightarrow>
     (let s = py_print (str_nat (len + 1) @ ''. Return to Stock Access Menu'' @ nl @
                 str_nat (len + 2) @ ''. Return to Main Menu'' @ nl @
                 str_nat (len + 3) @ ''. Exit'') s;
          s = py_print [] s
      in case select_stock len s of
           Inl e \<Rightarrow> Inl e
         | Inr (Inl b, s) \<Rightarrow> Inr (b, s)
         | Inr (Inr stock_number, s) \<Rightarrow>
     (let stock = all_stocks s ! nat (stock_number - 1) in
      case getitem stock ''stat1'' of Inl e \<Rightarrow> Inl e | Inr stat1 \<Rightarrow>
     (case getitem stock ''stat2'' of Inl e \<Rightarrow> Inl e | Inr stat2 \<Rightarrow>
        if length (split_on '' to '' [] stat2) \<noteq> 2
        then Inl (ValueError ''not enough or too many values to unpack'')
        else
         (let s = py_print (nl @ ''.....Retrieving Stock.....'' @ nl) s;
              s = py_print (''Available Statistics for '' @ stat1 @ '' from '' @ stat2) s;
              s = py_print (''1. Daily Opening Price'' @ nl @ ''2. Daily Closing Price'' @ nl @
                    ''3. Highest Intraday Price'' @ nl @ ''4. Lowest Intraday Price'' @ nl @
                    ''5. Daily Volume'') s
          in case menu_choice ''Which statistic do you want to graph? (1, 2, 3, 4, or 5): '' 5
                    ''Invalid Input. Please enter a number between 1 and 5''
                    ''Invalid Input. Please try again.'' s of
               Inl e \<Rightarrow> Inl e
             | Inr (graph_stat, s) \<Rightarrow>
                 Inr (False, py_print (nl @ ''.....Graphing.....'' @ nl) s))))))"

subsection \<open>main\<close>

definition user_guide :: string where
  "user_guide = nl @
    ''    ----------------------------------'' @ nl @
    ''    User Guide:'' @ nl @
    ''    1. Select '' @ [CHR 0x27] @ ''Analyze a Stock'' @ [CHR 0x27] @
        '' to input a ticker symbol and date range.'' @ nl @
    ''    2. Dates must be entered in YYYY-MM-DD format and be within valid trading days.'' @ nl @
    ''    3. After analysis, choose to save data or analyze another stock.'' @ nl @
    ''    4. Saved CSV files can be found in the same folder.'' @ nl @
    ''    5. Select '' @ [CHR 0x27] @ ''Access All Analyzed Stocks'' @ [CHR 0x27] @
        '' to do the following:'' @ nl @
    ''            I. List All Analyzed Stocks'' @ nl @
    ''            II. Save All Analyzed Stocks to a CSV'' @ nl @
    ''            III. View Graphs of Individual Analyzed Stocks'' @ nl @
    ''                '' @ nl @
    ''    *To exit at any point, follow the prompts in any menu*'' @ nl @
    ''    ----------------------------------'' @ nl @
    ''            ''"

text \<open>The texts of the three menus and of the remark on an empty list.\<close>

definition main_menu_text :: string where
  "main_menu_text = nl @ ''Menu:'' @ nl @ ''1. Analyze a Stock'' @ nl @
     ''2. Access All Analyzed Stocks'' @ nl @ ''3. User Guide'' @ nl @ ''4. Exit'' @ nl @
     ''---------------''"

definition analyze_first_text :: string where
  "analyze_first_text = nl @
     ''**You must first analyze one or more stocks before you can access them.**'' @ nl"

definition analysis_rule_text :: string where
  "analysis_rule_text = nl @ ''----------------------------------'' @ nl"

definition analysis_menu_text :: string where
  "analysis_menu_text = ''Stock Analysis Menu:'' @ nl @ ''1. Save Data to CSV'' @ nl @
     ''2. Analyze Another Stock'' @ nl @ ''3. Return to Main Menu'' @ nl @ ''4. Exit''"

definition access_menu_text :: string where
  "access_menu_text = nl @ ''Stock Access Menu:'' @ nl @ ''1. List All Analyzed Stocks'' @ nl @
     ''2. Save All Analyzed Stocks to CSV'' @ nl @
     ''3. View Graphs of Individual Analyzed Stocks'' @ nl @
     ''4. Return to Main Menu'' @ nl @ ''5. Exit'' @ nl @ ''---------------''"

text \<open>
  \<open>main\<close> is three nested \<open>while True\<close> loops. The menu the program is in, with the record
  the analysis menu works on, is the control state; one step is one pass through the body
  of the loop of that menu, from its banner to the end of the action chosen.
\<close>

datatype menu = MainMenu | AnalysisMenu dict | AccessMenu

definition main_menu_pass :: "'f env \<Rightarrow> state \<Rightarrow> exn + (menu \<times> state)" where
  "main_menu_pass env s =
     (let s = py_print ''-------------------------'' s;
          s = py_print ''Welcome to Stock Data Explorer!'' s;
          s = py_print main_menu_text s
      in case main_menu_choice s of Inl e \<Rightarrow> Inl e | Inr (choice, s) \<Rightarrow>
     (let s = py_print ''--------------------------'' s in
      if choice = 1 then
        (case analyze_stock env summary_statistics_titles s of
           Inl e \<Rightarrow> Inl e
         | Inr (stock_data, s) \<Rightarrow> Inr (AnalysisMenu stock_data, s))
      else if choice = 2 then
        (if all_stocks s = [] then
           Inr (MainMenu,
                py_print analyze_first_text s)
         else Inr (AccessMenu, s))
      else if choice = 3 then Inr (MainMenu, py_print user_guide s)
      else (case exit_menu s of Inl e \<Rightarrow> Inl e | Inr s \<Rightarrow> Inr (MainMenu, s))))"

definition analysis_menu_pass :: "'f env \<Rightarrow> dict \<Rightarrow> state \<Rightarrow> exn + (menu \<times> state)" where
  "analysis_menu_pass env stock_data s =
     (let s = py_print analysis_rule_text s;
          s = py_print analysis_menu_text s
      in case stock_choice s of Inl e \<Rightarrow> Inl e | Inr (choice, s) \<Rightarrow>
      if choice = 1 then
        (case save_one_stock_to_csv stock_data summary_statistics_titles s of
           Inl e \<Rightarrow> Inl e
         | Inr s \<Rightarrow> Inr (AnalysisMenu stock_data, s))
      else if choice = 2 then
        (case analyze_stock env summary_statistics_titles (py_print [] s) of
           Inl e \<Rightarrow> Inl e
         | Inr (stock_data, s) \<Rightarrow> Inr (AnalysisMenu stock_data, s))
      else if choice = 3 then Inr (MainMenu, s)
      else (case exit_menu s of Inl e \<Rightarrow> Inl e | Inr s \<Rightarrow> Inr (AnalysisMenu stock_data, s)))"

definition access_menu_pass :: "state \<Rightarrow> exn + (menu \<times> state)" where
  "access_menu_pass s =
     (let s = py_print access_menu_text s
      in case access_choice s of Inl e \<Rightarrow> Inl e | Inr (choice, s) \<Rightarrow>
      if choice = 1 then
        (case list_stocks summary_statistics_titles s of
           Inl e \<Rightarrow> Inl e
         | Inr s \<Rightarrow> Inr (AccessMenu, s))
      else if choice = 2 then
        (case save_all_to_csv summary_statistics_titles s of
           Inl e \<Rightarrow> Inl e
         | Inr s \<Rightarrow> Inr (AccessMenu, s))
      else if choice = 3 then
        (case view_stock_graph s of
           Inl e \<Rightarrow> Inl e
         | Inr (to_main, s) \<Rightarrow> Inr (if to_main then MainMenu else AccessMenu, s))
      else if choice = 4 then Inr (MainMenu, s)
      else (case exit_menu s of Inl e \<Rightarrow> Inl e | Inr s \<Rightarrow> Inr (AccessMenu, s)))"

fun main_step :: "'f env \<Rightarrow> menu \<times> state \<Rightarrow> exn + (menu \<times> state)" where
  "main_step env (MainMenu, s) = main_menu_pass env s"
| "main_step env (AnalysisMenu stock_data, s) = analysis_menu_pass env stock_data s"
| "main_step env (AccessMenu, s) = access_menu_pass s"

text \<open>
  The states of a session: \<open>main\<close> starts in the main menu with \<open>all_stocks = []\<close>, and
  goes on pass by pass for as long as no exception ends the process.
\<close>

inductive reachable :: "'f env \<Rightarrow> menu \<times> state \<Rightarrow> bool" for env :: "'f env" where
  start: "all_stocks s = [] \<Longrightarrow> reachable env (MainMenu, s)"
| pass: "reachable env c \<Longrightarrow> main_step env c = Inr c' \<Longrightarrow> reachable env c'"

text \<open>
  The invariant of \<open>all_stocks\<close>: every record has the fourteen keys, and no two records
  have the same pair of \<open>stat1\<close> and \<open>stat2\<close>.
\<close>

definition deduplicated :: "dict list \<Rightarrow> bool" where
  "deduplicated stocks = (list_all is_summary stocks \<and> distinct (map stock_key stocks))"

text \<open>A session that analyzes the same stock and dates twice.\<close>

definition session_start :: state where
  "session_start =
     \<lparr>stdin = [''1'', '' aapl'', ''2024-01-02'', ''2024-01-30'',
               ''2'', ''AAPL'', ''2024-01-02'', ''2024-01-30''],
      stdout = [], files = (\<lambda>f. None), all_stocks = []\<rparr>"


subsection \<open>Frames: what each operation leaves alone\<close>

lemma menu_choice_frame:
  assumes "menu_choice p hi rm vm s = Inr (n, s')"
  shows "length (stdin s') < length (stdin s) \<and> all_stocks s' = all_stocks s \<and> files s' = files s"
proof (cases "dropWhile (rejected hi) (stdin s)")
  case Nil
  with assms show ?thesis by (simp add: menu_choice_run del: dropWhile_eq_Nil_conv)
next
  case (Cons x rest)
  have "length (dropWhile (rejected hi) (stdin s)) \<le> length (stdin s)"
    by (rule length_dropWhile_le)
  with Cons have "length rest < length (stdin s)" by simp
  with assms Cons show ?thesis
    by (auto simp: menu_choice_run simp del: dropWhile_eq_Nil_conv)
qed

lemma save_one_stock_to_csv_frame:
  "save_one_stock_to_csv d titles s = Inr s' \<Longrightarrow>
     all_stocks s' = all_stocks s \<and> stdin s' = stdin s"
  unfolding save_one_stock_to_csv_def Let_def
  by (auto split: sum.splits option.splits if_splits prod.splits simp: py_print_def)

lemma filename_loop_frame:
  "filename_loop f s = Inr (g, s') \<Longrightarrow>
     all_stocks s' = all_stocks s \<and> files s' = files s \<and> length (stdin s') \<le> length (stdin s)"
proof (induction f s rule: filename_loop.induct)
  case (1 f s)
  show ?case
  proof (cases "f \<noteq> []")
    case True
    with "1.prems" show ?thesis by (simp add: filename_loop.simps[of f s])
  next
    case False
    from "1.prems" False obtain l s1 where
      i: "py_input ''Please enter a filename: '' s = Inr (l, s1)"
      and r: "filename_loop (strip l) s1 = Inr (g, s')"
      by (subst (asm) filename_loop.simps) (auto split: sum.splits)
    from "1.IH"[OF False i refl r] py_input_frame[OF i] show ?thesis by simp
  qed
qed

lemma save_all_to_csv_frame:
  "save_all_to_csv titles s = Inr s' \<Longrightarrow> all_stocks s' = all_stocks s"
  unfolding save_all_to_csv_def Let_def
  by (auto split: sum.splits prod.splits simp: py_print_def dest!: filename_loop_frame)

lemma list_stocks_loop_frame:
  "list_stocks_loop titles stocks s = Inr s' \<Longrightarrow>
     all_stocks s' = all_stocks s \<and> files s' = files s \<and> stdin s' = stdin s"
  by (induction stocks arbitrary: s) (auto split: sum.splits dest!: print_stats_frame)

lemma list_stocks_frame:
  "list_stocks titles s = Inr s' \<Longrightarrow>
     all_stocks s' = all_stocks s \<and> files s' = files s \<and> stdin s' = stdin s"
  by (auto simp: list_stocks_def dest!: list_stocks_loop_frame)

lemma print_stock_lines_frame:
  "print_stock_lines stocks i s = Inr s' \<Longrightarrow>
     all_stocks s' = all_stocks s \<and> files s' = files s \<and> stdin s' = stdin s"
  by (induction stocks arbitrary: i s) (auto split: sum.splits)

lemma select_stock_frame:
  "select_stock len s = Inr (r, s') \<Longrightarrow> all_stocks s' = all_stocks s \<and> files s' = files s"
proof (induction len s rule: select_stock.induct)
  case (1 len s)
  from "1.prems" obtain l s1 where
    i: "py_input ''Which stock would you like to view? (Enter the Number): '' s = Inr (l, s1)"
    by (subst (asm) select_stock.simps) (auto split: sum.splits)
  note f1 = py_input_frame[OF i]
  show ?case
  proof (cases "py_int (strip l)")
    case (Inl e)
    with "1.prems" i have
      "select_stock len (py_print ''Invalid input. Please try again.'' s1) = Inr (r, s')"
      by (subst (asm) select_stock.simps) simp
    from "1.IH"(1)[OF i refl Inl this] f1 show ?thesis by simp
  next
    case (Inr n)
    show ?thesis
    proof (cases "1 \<le> n \<and> n \<le> int len + 3")
      case False
      with "1.prems" i Inr have
        "select_stock len (py_print (''Invalid input. You must input a number between 1 and '' @
                      str_nat (len + 3)) s1) = Inr (r, s')"
        by (subst (asm) select_stock.simps) (auto split: if_splits)
      from "1.IH"(2)[OF i refl Inr _ this] False f1 show ?thesis by simp
    next
      case True
      show ?thesis
      proof (cases "n = int len + 3")
        case e3: True
        with "1.prems" i Inr True obtain s2 where
          x: "exit_menu s1 = Inr s2" and run: "select_stock len s2 = Inr (r, s')"
          by (subst (asm) select_stock.simps) (auto split: if_splits sum.splits)
        have "\<not> \<not> (1 \<le> n \<and> n \<le> int len + 3)" using True by simp
        moreover have "n \<noteq> int len + 1" "n \<noteq> int len + 2" using e3 by simp_all
        ultimately have "all_stocks s' = all_stocks s2 \<and> files s' = files s2"
          using "1.IH"(3)[OF i refl Inr _ _ _ e3 x run] by blast
        with exit_menu_frame[OF x] f1 show ?thesis by simp
      next
        case False
        with "1.prems" i Inr True have "s' = s1"
          by (subst (asm) select_stock.simps) (auto split: if_splits)
        with f1 show ?thesis by simp
      qed
    qed
  qed
qed

lemma view_stock_graph_frame:
  "view_stock_graph s = Inr (b, s') \<Longrightarrow> all_stocks s' = all_stocks s \<and> files s' = files s"
  unfolding view_stock_graph_def Let_def
  by (auto split: sum.splits prod.splits if_splits
      dest!: print_stock_lines_frame select_stock_frame menu_choice_frame)

lemma analyze_stock_appends:
  assumes "analyze_stock env titles s = Inr (r, s')"
  shows "is_summary r \<and>
         (if stock_key r \<in> stock_key ` set (all_stocks s) then all_stocks s' = all_stocks s
          else all_stocks s' = all_stocks s @ [r])"
proof -
  from analyze_stock_result[OF assms] obtain tk a b d s1 where
    c: "stock_summary_statistics env tk a b = Some d" "all_stocks s1 = all_stocks s"
       "append_if_new d s1 = Inr (r, s')"
    by blast
  from append_if_new_cases[OF c(3)] c(1,2) stock_summary_statistics_is_summary[OF c(1)]
  show ?thesis by (auto split: if_splits)
qed

lemma analyze_stock_deduplicated:
  assumes "analyze_stock env titles s = Inr (r, s')" and "deduplicated (all_stocks s)"
  shows "deduplicated (all_stocks s')"
  using analyze_stock_appends[OF assms(1)] assms(2)
  by (auto simp: deduplicated_def split: if_splits)

lemma main_menu_pass_deduplicated:
  assumes "main_menu_pass env s = Inr (m', s')" and "deduplicated (all_stocks s)"
  shows "deduplicated (all_stocks s')"
  using assms unfolding main_menu_pass_def Let_def main_menu_choice_def
  by (auto split: sum.splits prod.splits if_splits
      dest!: menu_choice_frame exit_menu_frame
      dest: analyze_stock_deduplicated)

lemma analysis_menu_pass_deduplicated:
  assumes "analysis_menu_pass env d s = Inr (m', s')" and "deduplicated (all_stocks s)"
  shows "deduplicated (all_stocks s')"
  using assms unfolding analysis_menu_pass_def Let_def stock_choice_def
  by (auto split: sum.splits prod.splits if_splits
      dest!: menu_choice_frame exit_menu_frame save_one_stock_to_csv_frame
      dest: analyze_stock_deduplicated)

lemma access_menu_pass_deduplicated:
  assumes "access_menu_pass s = Inr (m', s')" and "deduplicated (all_stocks s)"
  shows "deduplicated (all_stocks s')"
  using assms unfolding access_menu_pass_def Let_def access_choice_def
  by (auto split: sum.splits prod.splits if_splits
      dest!: menu_choice_frame exit_menu_frame save_all_to_csv_frame list_stocks_frame
        view_stock_graph_frame)

lemma main_step_deduplicated:
  assumes "main_step env (m, s) = Inr (m', s')" and "deduplicated (all_stocks s)"
  shows "deduplicated (all_stocks s')"
  using assms
  by (cases m)
    (auto dest: main_menu_pass_deduplicated analysis_menu_pass_deduplicated
       access_menu_pass_deduplicated)

lemma reachable_deduplicated:
  "reachable env c \<Longrightarrow> deduplicated (all_stocks (snd c))"
proof (induction rule: reachable.induct)
  case (start s)
  then show ?case by (simp add: deduplicated_def)
next
  case (pass c c')
  then show ?case
    using main_step_deduplicated[of env "fst c" "snd c" "fst c'" "snd c'"] by simp
qed


lemma report_stock_total:
  assumes d: "is_summary d" and inv: "list_all is_summary (all_stocks s)"
  shows "\<exists>s'. report_stock summary_statistics_titles tk a b d s = Inr (d, s') \<and>
           stdin s' = stdin s \<and> files s' = files s \<and>
           all_stocks s' = (if stock_key d \<in> stock_key ` set (all_stocks s) then all_stocks s
                           else all_stocks s @ [d])"
proof -
  let ?s1 = "py_print (''--'' @ nl @ ''**Note**:'' @ nl @
                ''If either the start or end date occurs on a day when the market was closed, the soonest succeeding day was chosen.''
                @ nl @ ''--'' @ nl)
      (py_print (''----------------------------------'' @ nl)
      (py_print (''Valid Date Range: '' @ isoformat a @ '' to '' @ isoformat b)
      (py_print (''Company: '' @ ticker tk @ '' ('' @ long_name tk @ '')'') s)))"
  have "set [0..<length d] \<subseteq> {0..<14}" using is_summary_length[OF d] by simp
  from print_stats_ok[OF d this, of summary_statistics_titles ?s1]
  obtain s2 where p: "print_stats summary_statistics_titles d [0..<length d] ?s1 = Inr s2"
    by (auto simp: summary_statistics_titles_def)
  from print_stats_frame[OF p]
  have f: "stdin s2 = stdin s" "all_stocks s2 = all_stocks s" "files s2 = files s"
    by simp_all
  have "already_analyzed (all_stocks s2) d = Inr (stock_key d \<in> stock_key ` set (all_stocks s))"
    using already_analyzed_total[of "all_stocks s2" d] inv d f by (simp add: list_all_iff)
  then have "\<exists>s'. append_if_new d s2 = Inr (d, s') \<and> stdin s' = stdin s \<and> files s' = files s \<and>
           all_stocks s' = (if stock_key d \<in> stock_key ` set (all_stocks s) then all_stocks s
                           else all_stocks s @ [d])"
    using f by (simp add: append_if_new_def)
  with p show ?thesis by (simp add: report_stock_def Let_def)
qed

lemma sample_analysis:
  assumes i: "stdin s = t # ''2024-01-02'' # ''2024-01-30'' # rest"
      and t: "upper (strip t) = ''AAPL''"
      and inv: "list_all is_summary (all_stocks s)"
  shows "\<exists>s'. analyze_stock sample_env summary_statistics_titles s = Inr (sample_record, s') \<and>
           stdin s' = rest \<and>
           all_stocks s' = (if stock_key sample_record \<in> stock_key ` set (all_stocks s)
                           then all_stocks s else all_stocks s @ [sample_record])"
proof -
  define s1 where "s1 = s\<lparr>stdin := ''2024-01-02'' # ''2024-01-30'' # rest,
      stdout := stdout s @ [''Please enter a stock ticker: '']\<rparr>"
  define s2 where "s2 = s1\<lparr>stdin := ''2024-01-30'' # rest,
      stdout := stdout s1 @ [''Please enter a start date(YYYY-MM-DD): '']\<rparr>"
  define s3 where "s3 = s2\<lparr>stdin := rest,
      stdout := stdout s2 @ [''Please enter an end date(YYYY-MM-DD): '']\<rparr>"
  define s8 where "s8 = py_print ''-----------------------------''
      (py_print (nl @ ''.....Validating.....'' @ nl) s3)"
  have i1: "input_ticker sample_env s = Inr (Some sample_ticker, s1)"
    by (simp add: input_ticker_def py_input_def i t validate_ticker_def sample_env_def
        sample_ticker_def s1_def)
  have i2: "input_date ''Please enter a start date(YYYY-MM-DD): '' s1 = Inr (Some sample_start, s2)"
    by (simp add: input_date_def py_input_def validate_date_def sample_strptime s1_def s2_def)
  have i3: "input_date ''Please enter an end date(YYYY-MM-DD): '' s2 = Inr (Some sample_end, s3)"
    by (simp add: input_date_def py_input_def validate_date_def sample_strptime s2_def s3_def)
  have f8: "all_stocks s8 = all_stocks s" "stdin s8 = rest"
    by (simp_all add: s8_def s3_def s2_def s1_def)
  from report_stock_total[OF sample_record_is_summary, of s8 sample_ticker sample_start sample_end]
    inv f8
  obtain s' where
    r: "report_stock summary_statistics_titles sample_ticker sample_start sample_end
            sample_record s8 = Inr (sample_record, s')"
       "stdin s' = rest"
       "all_stocks s' = (if stock_key sample_record \<in> stock_key ` set (all_stocks s)
                           then all_stocks s else all_stocks s @ [sample_record])"
    by auto
  have ne: "sample_record \<noteq> []" by (simp add: sample_record_def)
  have "analyze_validated sample_env summary_statistics_titles sample_ticker sample_start sample_end s3
          = Inr (Return (sample_record, s'))"
    using r(1) ne
    by (simp add: analyze_validated_def Let_def sample_dates_ordered sample_statistics s8_def)
  then have "analyze_stock_body sample_env summary_statistics_titles s
          = Inr (Return (sample_record, s'))"
    by (simp add: analyze_stock_body_def i1 i2 i3)
  then have "analyze_stock sample_env summary_statistics_titles s = Inr (sample_record, s')"
    by (simp add: analyze_stock.simps[of sample_env summary_statistics_titles s])
  with r(2,3) show ?thesis by blast
qed

lemma menu_choice_head:
  assumes "\<not> rejected hi x" and "stdin s = x # rest"
  shows "menu_choice p hi rm vm s = Inr (parsed x, s\<lparr>stdin := rest, stdout := stdout s @ [p]\<rparr>)"
  using assms by (simp add: menu_choice_run)

lemma sample_menu_lines:
  "\<not> rejected 4 ''1''" "parsed ''1'' = 1" "\<not> rejected 4 ''2''" "parsed ''2'' = 2"
  "upper (strip ''AAPL'') = ''AAPL''"
  by (code_simp+)


subsection \<open>The list of analyzed stocks\<close>

text \<open>
  C1. In every state a session reaches, each record of \<open>all_stocks\<close> has the fourteen
  keys and no two records have the same \<open>stat1\<close> and \<open>stat2\<close>. A call of \<open>analyze_stock\<close>
  that returns has either left \<open>all_stocks\<close> as it was, when a record with the \<open>stat1\<close> and
  \<open>stat2\<close> of the returned one was there, or appended the returned record, when none was.
  No other operation changes \<open>all_stocks\<close>: not the two saves, the listing, the graph
  view, \<open>exit_menu\<close> or a menu prompt.
\<close>

theorem all_stocks_deduplicated:
  "(reachable env (m, s) \<longrightarrow>
      list_all is_summary (all_stocks s) \<and> distinct (map stock_key (all_stocks s)))
   \<and> (analyze_stock env titles s = Inr (r, s1) \<longrightarrow>
        (if stock_key r \<in> stock_key ` set (all_stocks s) then all_stocks s1 = all_stocks s
         else all_stocks s1 = all_stocks s @ [r]))
   \<and> (save_one_stock_to_csv d titles s = Inr s2 \<longrightarrow> all_stocks s2 = all_stocks s)
   \<and> (save_all_to_csv titles s = Inr s3 \<longrightarrow> all_stocks s3 = all_stocks s)
   \<and> (list_stocks titles s = Inr s4 \<longrightarrow> all_stocks s4 = all_stocks s)
   \<and> (view_stock_graph s = Inr (b, s5) \<longrightarrow> all_stocks s5 = all_stocks s)
   \<and> (exit_menu s = Inr s6 \<longrightarrow> all_stocks s6 = all_stocks s)
   \<and> (menu_choice p hi rm vm s = Inr (n, s7) \<longrightarrow> all_stocks s7 = all_stocks s)"
  using reachable_deduplicated[of env "(m, s)"] analyze_stock_appends[of env titles s r s1]
    save_one_stock_to_csv_frame[of d titles s s2] save_all_to_csv_frame[of titles s s3]
    list_stocks_frame[of titles s s4] view_stock_graph_frame[of s b s5]
    exit_menu_frame[of s s6] menu_choice_frame[of p hi rm vm s n s7]
  by (simp add: deduplicated_def)

theorem all_stocks_deduplicated_witness:
  "\<exists>s. reachable sample_env (AnalysisMenu sample_record, s) \<and>
       all_stocks s = [sample_record] \<and> stdin s = [] \<and>
       list_all is_summary (all_stocks s) \<and> distinct (map stock_key (all_stocks s))"
proof -
  have r0: "reachable sample_env (MainMenu, session_start)"
    by (rule reachable.start) (simp add: session_start_def)
  \<comment> \<open>first pass: the main menu, choice 1, a first analysis\<close>
  define a0 where "a0 = py_print main_menu_text
      (py_print ''Welcome to Stock Data Explorer!''
        (py_print ''-------------------------'' session_start))"
  have "stdin a0 = ''1'' # [ '' aapl'', ''2024-01-02'', ''2024-01-30'',
               ''2'', ''AAPL'', ''2024-01-02'', ''2024-01-30'']"
    by (simp add: a0_def session_start_def)
  from menu_choice_head[OF sample_menu_lines(1) this]
  obtain a1 where c1: "main_menu_choice a0 = Inr (1, a1)"
    and a1: "stdin a1 = [ '' aapl'', ''2024-01-02'', ''2024-01-30'',
               ''2'', ''AAPL'', ''2024-01-02'', ''2024-01-30'']" "all_stocks a1 = []"
    by (simp add: main_menu_choice_def sample_menu_lines a0_def session_start_def)
  define a2 where "a2 = py_print ''--------------------------'' a1"
  have "stdin a2 = '' aapl'' # ''2024-01-02'' # ''2024-01-30'' #
      [''2'', ''AAPL'', ''2024-01-02'', ''2024-01-30'']" "list_all is_summary (all_stocks a2)"
    by (simp_all add: a2_def a1)
  from sample_analysis[OF this(1) sample_upper this(2)]
  obtain a3 where an1: "analyze_stock sample_env summary_statistics_titles a2 = Inr (sample_record, a3)"
    and a3: "stdin a3 = [''2'', ''AAPL'', ''2024-01-02'', ''2024-01-30'']"
       "all_stocks a3 = [sample_record]"
    by (auto simp: a2_def a1)
  have p1: "main_step sample_env (MainMenu, session_start) = Inr (AnalysisMenu sample_record, a3)"
    by (simp add: main_menu_pass_def Let_def a0_def[symmetric] c1 a2_def[symmetric] an1)
  from reachable.pass[OF r0 p1] have r1: "reachable sample_env (AnalysisMenu sample_record, a3)" .
  \<comment> \<open>second pass: the analysis menu, choice 2, the same stock and dates again\<close>
  define b0 where "b0 = py_print analysis_menu_text
      (py_print analysis_rule_text a3)"
  have "stdin b0 = ''2'' # [''AAPL'', ''2024-01-02'', ''2024-01-30'']"
    by (simp add: b0_def a3)
  from menu_choice_head[OF sample_menu_lines(3) this]
  obtain b1 where c2: "stock_choice b0 = Inr (2, b1)"
    and b1: "stdin b1 = [''AAPL'', ''2024-01-02'', ''2024-01-30'']" "all_stocks b1 = [sample_record]"
    by (simp add: stock_choice_def sample_menu_lines b0_def a3)
  define b2 where "b2 = py_print [] b1"
  have "stdin b2 = ''AAPL'' # ''2024-01-02'' # ''2024-01-30'' # []"
    "list_all is_summary (all_stocks b2)"
    by (simp_all add: b2_def b1 sample_record_is_summary)
  from sample_analysis[OF this(1) sample_menu_lines(5) this(2)]
  obtain b3 where an2: "analyze_stock sample_env summary_statistics_titles b2 = Inr (sample_record, b3)"
    and b3: "stdin b3 = []" "all_stocks b3 = [sample_record]"
    by (auto simp: b2_def b1)
  have p2: "main_step sample_env (AnalysisMenu sample_record, a3) = Inr (AnalysisMenu sample_record, b3)"
    by (simp add: analysis_menu_pass_def Let_def b0_def[symmetric] c2 b2_def[symmetric] an2)
  from reachable.pass[OF r1 p2] have r2: "reachable sample_env (AnalysisMenu sample_record, b3)" .
  from all_stocks_deduplicated[where env = sample_env and m = "AnalysisMenu sample_record" and s = b3]
    r2 b3
  show ?thesis by blast
qed

subsection \<open>What validate\_date accepts\<close>

text \<open>
  The strings \<open>strptime\<close> accepts for \<open>%Y-%m-%d\<close>, described without the regular
  expression: the year is the first four characters, a hyphen follows, the month is the one
  or two characters before the next hyphen, and the day is the rest. The year is four
  digits; the month is \<open>1\<close> to \<open>9\<close>, \<open>01\<close> to \<open>09\<close> or \<open>10\<close> to \<open>12\<close>; the day is \<open>1\<close> to \<open>9\<close>,
  \<open>01\<close> to \<open>31\<close>, or a space and \<open>1\<close> to \<open>9\<close>.
\<close>

definition is_nonzero :: "char \<Rightarrow> bool" where
  "is_nonzero c = (c \<in> set ''123456789'')"

definition year_field :: "string \<Rightarrow> bool" where
  "year_field ys = (length ys = 4 \<and> list_all is_digit ys)"

definition month_field :: "string \<Rightarrow> bool" where
  "month_field ms =
     (case ms of
        [c] \<Rightarrow> is_nonzero c
      | [c1, c2] \<Rightarrow> (c1 = CHR ''0'' \<and> is_nonzero c2) \<or> (c1 = CHR ''1'' \<and> c2 \<in> set ''012'')
      | _ \<Rightarrow> False)"

definition day_field :: "string \<Rightarrow> bool" where
  "day_field ds =
     (case ds of
        [c] \<Rightarrow> is_nonzero c
      | [c1, c2] \<Rightarrow>
          (c1 = CHR ''0'' \<and> is_nonzero c2) \<or> (c1 \<in> set ''12'' \<and> is_digit c2) \<or>
          (c1 = CHR ''3'' \<and> c2 \<in> set ''01'') \<or> (c1 = CHR '' '' \<and> is_nonzero c2)
      | _ \<Rightarrow> False)"

definition date_fields :: "string \<Rightarrow> (string \<times> string \<times> string) option" where
  "date_fields s =
     (case s of
        y1 # y2 # y3 # y4 # h1 # m1 # c # rest \<Rightarrow>
          if h1 \<noteq> CHR ''-'' then None
          else if c = CHR ''-'' then Some ([y1, y2, y3, y4], [m1], rest)
          else (case rest of
                  h2 # ds \<Rightarrow> if h2 = CHR ''-'' then Some ([y1, y2, y3, y4], [m1, c], ds) else None
                | [] \<Rightarrow> None)
      | _ \<Rightarrow> None)"

text \<open>The first match of a backtracking search, when it leaves no text over.\<close>

definition first_full :: "rx_state list \<Rightarrow> dict option" where
  "first_full ms = (case ms of [] \<Rightarrow> None | (found, rest) # _ \<Rightarrow> if rest \<noteq> [] then None else Some found)"

text \<open>
  The number a field stands for, a valid calendar date, and the date an accepted string
  names.
\<close>

definition field_value :: "string \<Rightarrow> nat" where
  "field_value t = foldl (\<lambda>a c. 10 * a + digit_val c) 0 (filter is_digit t)"

definition valid_date :: "nat \<Rightarrow> nat \<Rightarrow> nat \<Rightarrow> bool" where
  "valid_date y m d =
     (1 \<le> y \<and> y \<le> 9999 \<and> 1 \<le> m \<and> m \<le> 12 \<and> 1 \<le> d \<and> d \<le> days_in_month y m)"

definition accepted_date :: "string \<Rightarrow> date option" where
  "accepted_date s =
     (case date_fields s of
        None \<Rightarrow> None
      | Some (ys, ms, ds) \<Rightarrow>
          if year_field ys \<and> month_field ms \<and> day_field ds \<and>
             valid_date (field_value ys) (field_value ms) (field_value ds)
          then Some \<lparr>year = field_value ys, month = field_value ms, day = field_value ds\<rparr>
          else None)"

text \<open>
  A well-formed YYYY-MM-DD calendar date, in the words of the specification: four digits,
  a hyphen, two digits, a hyphen, two digits, naming a valid calendar date.
\<close>

definition well_formed_date :: "string \<Rightarrow> date option" where
  "well_formed_date s =
     (case s of
        [y1, y2, y3, y4, h1, m1, m2, h2, d1, d2] \<Rightarrow>
          if list_all is_digit [y1, y2, y3, y4, m1, m2, d1, d2] \<and> h1 = CHR ''-'' \<and> h2 = CHR ''-'' \<and>
             valid_date (field_value [y1, y2, y3, y4]) (field_value [m1, m2]) (field_value [d1, d2])
          then Some \<lparr>year = field_value [y1, y2, y3, y4], month = field_value [m1, m2],
                     day = field_value [d1, d2]\<rparr>
          else None
      | _ \<Rightarrow> None)"


lemma rx_digit_simp [simp]:
  "rx_match rx_digit (caps, c # r) = (if is_digit c then [(caps, r)] else [])"
  "rx_match rx_digit (caps, []) = []"
  by (simp_all add: rx_digit_def is_digit_def)

lemma rx_nonzero_simp [simp]:
  "rx_match rx_nonzero (caps, c # r) = (if is_nonzero c then [(caps, r)] else [])"
  "rx_match rx_nonzero (caps, []) = []"
  by (simp_all add: rx_nonzero_def is_nonzero_def)

lemma rx_Y_cons:
  "rx_match rx_Y (caps, a # b # c # d # r) =
     (if is_digit a \<and> is_digit b \<and> is_digit c \<and> is_digit d
      then [(caps @ [(''Y'', [a, b, c, d])], r)] else [])"
  by (simp add: rx_Y_def)

lemma rx_Y_short:
  "rx_match rx_Y (caps, []) = []" "rx_match rx_Y (caps, [a]) = []"
  "rx_match rx_Y (caps, [a, b]) = []" "rx_match rx_Y (caps, [a, b, c]) = []"
  by (simp_all add: rx_Y_def)

lemma rx_m_cons:
  "rx_match rx_m (caps, c1 # c2 # r) =
     (if c1 = CHR ''1'' \<and> c2 \<in> set ''012'' then [(caps @ [(''m'', [c1, c2])], r)] else []) @
     (if c1 = CHR ''0'' \<and> is_nonzero c2 then [(caps @ [(''m'', [c1, c2])], r)] else []) @
     (if is_nonzero c1 then [(caps @ [(''m'', [c1])], c2 # r)] else [])"
  "rx_match rx_m (caps, [c1]) = (if is_nonzero c1 then [(caps @ [(''m'', [c1])], [])] else [])"
  "rx_match rx_m (caps, []) = []"
  by (simp_all add: rx_m_def)

lemma rx_d_cons:
  "rx_match rx_d (caps, c1 # c2 # r) =
     (if c1 = CHR ''3'' \<and> c2 \<in> set ''01'' then [(caps @ [(''d'', [c1, c2])], r)] else []) @
     (if c1 \<in> set ''12'' \<and> is_digit c2 then [(caps @ [(''d'', [c1, c2])], r)] else []) @
     (if c1 = CHR ''0'' \<and> is_nonzero c2 then [(caps @ [(''d'', [c1, c2])], r)] else []) @
     (if is_nonzero c1 then [(caps @ [(''d'', [c1])], c2 # r)] else []) @
     (if c1 = CHR '' '' \<and> is_nonzero c2 then [(caps @ [(''d'', [c1, c2])], r)] else [])"
  "rx_match rx_d (caps, [c1]) = (if is_nonzero c1 then [(caps @ [(''d'', [c1])], [])] else [])"
  "rx_match rx_d (caps, []) = []"
  by (simp_all add: rx_d_def)

lemma not_hyphen:
  "is_digit c \<Longrightarrow> c \<noteq> CHR ''-''" "is_nonzero c \<Longrightarrow> c \<noteq> CHR ''-''"
  by (auto simp: is_digit_def is_nonzero_def)

lemma nonzero_facts:
  "is_nonzero c \<Longrightarrow> c \<noteq> CHR ''0''" "is_nonzero c \<Longrightarrow> c \<noteq> CHR '' ''" "is_nonzero c \<Longrightarrow> is_digit c"
  "is_nonzero CHR ''1''" "is_nonzero CHR ''2''" "is_nonzero CHR ''3''" "\<not> is_nonzero CHR ''0''"
  "\<not> is_nonzero CHR '' ''" "\<not> is_nonzero CHR ''-''" "\<not> is_digit CHR ''-''" "\<not> is_digit CHR '' ''"
  by (auto simp: is_digit_def is_nonzero_def)

lemma rx_hyphen [simp]:
  "rx_match (Chars ''-'') (caps, c # r) = (if c = CHR ''-'' then [(caps, r)] else [])"
  "rx_match (Chars ''-'') (caps, []) = []"
  by simp_all

lemma short_no_match:
  assumes "length s < 7"
  shows "rx_match format_regex ([], s) = []"
proof -
  from assms consider "s = []" | a where "s = [a]" | a b where "s = [a, b]"
    | a b c where "s = [a, b, c]" | a b c d where "s = [a, b, c, d]"
    | a b c d e where "s = [a, b, c, d, e]" | a b c d e f where "s = [a, b, c, d, e, f]"
    by (auto simp: less_Suc_eq numeral_eq_Suc length_Suc_conv)
  then show ?thesis
    by cases (simp_all add: format_regex_def rx_Y_cons rx_Y_short rx_m_cons rx_d_cons)
qed

lemma rx_d_first:
  "first_full (rx_match rx_d (caps, ds)) =
     (if day_field ds then Some (caps @ [(''d'', ds)]) else None)"
proof -
  consider "ds = []" | c1 where "ds = [c1]" | c1 c2 where "ds = [c1, c2]"
    | c1 c2 c3 more where "ds = c1 # c2 # c3 # more"
    by (metis list.exhaust)
  then show ?thesis
  proof cases
    case 1
    then show ?thesis by (simp add: first_full_def rx_d_cons day_field_def)
  next
    case 2
    then show ?thesis by (simp add: first_full_def rx_d_cons day_field_def)
  next
    case 3
    then show ?thesis
      by (auto simp: first_full_def rx_d_cons day_field_def nonzero_facts)
  next
    case 4
    then show ?thesis
      by (auto simp: first_full_def rx_d_cons day_field_def nonzero_facts)
  qed
qed

lemma hyphen_day:
  "rx_match (Seq (Chars ''-'') rx_d) (caps, t) =
     (case t of [] \<Rightarrow> [] | h # ds \<Rightarrow> if h = CHR ''-'' then rx_match rx_d (caps, ds) else [])"
  by (cases t) simp_all

lemma month_day:
  "rx_match (Seq rx_m (Seq (Chars ''-'') rx_d)) (caps, m1 # c # rest) =
     (if c = CHR ''-''
      then (if is_nonzero m1 then rx_match rx_d (caps @ [(''m'', [m1])], rest) else [])
      else if (m1 = CHR ''1'' \<and> c \<in> set ''012'') \<or> (m1 = CHR ''0'' \<and> is_nonzero c)
      then rx_match (Seq (Chars ''-'') rx_d) (caps @ [(''m'', [m1, c])], rest)
      else [])"
proof (cases "c = CHR ''-''")
  case True
  then show ?thesis
    by (simp add: rx_m_cons nonzero_facts)
next
  case False
  then show ?thesis
    by (auto simp add: rx_m_cons nonzero_facts not_hyphen)
qed

lemma format_regex_long:
  "rx_match format_regex ([], y1 # y2 # y3 # y4 # h1 # t) =
     (if is_digit y1 \<and> is_digit y2 \<and> is_digit y3 \<and> is_digit y4 \<and> h1 = CHR ''-''
      then rx_match (Seq rx_m (Seq (Chars ''-'') rx_d)) ([(''Y'', [y1, y2, y3, y4])], t)
      else [])"
  by (simp add: format_regex_def rx_Y_cons del: rx_match.simps(2))
     (simp add: rx_Y_cons)

lemma first_full_Nil [simp]: "first_full [] = None"
  by (simp add: first_full_def)

lemma long_match:
  "first_full (rx_match format_regex ([], y1 # y2 # y3 # y4 # h1 # m1 # c # rest)) =
     (case date_fields (y1 # y2 # y3 # y4 # h1 # m1 # c # rest) of
        Some (ys, ms, ds) \<Rightarrow>
          if year_field ys \<and> month_field ms \<and> day_field ds
          then Some [(''Y'', ys), (''m'', ms), (''d'', ds)] else None
      | None \<Rightarrow> None)"
proof (cases "is_digit y1 \<and> is_digit y2 \<and> is_digit y3 \<and> is_digit y4 \<and> h1 = CHR ''-''")
  case False
  then have "rx_match format_regex ([], y1 # y2 # y3 # y4 # h1 # m1 # c # rest) = []"
    by (auto simp: format_regex_long simp del: rx_match.simps)
  then have "first_full (rx_match format_regex ([], y1 # y2 # y3 # y4 # h1 # m1 # c # rest)) = None"
    by simp
  moreover from False have "h1 \<noteq> CHR ''-'' \<or> \<not> year_field [y1, y2, y3, y4]"
    by (auto simp: year_field_def)
  ultimately show ?thesis
    by (auto simp: date_fields_def split: list.splits)
next
  case True
  then have yf: "year_field [y1, y2, y3, y4]" and h: "h1 = CHR ''-''"
    by (simp_all add: year_field_def)
  let ?cy = "[(''Y'', [y1, y2, y3, y4])]"
  have m: "rx_match format_regex ([], y1 # y2 # y3 # y4 # h1 # m1 # c # rest) =
      rx_match (Seq rx_m (Seq (Chars ''-'') rx_d)) (?cy, m1 # c # rest)"
    using True by (simp add: format_regex_long del: rx_match.simps)
  show ?thesis
  proof (cases "c = CHR ''-''")
    case c: True
    have df: "date_fields (y1 # y2 # y3 # y4 # h1 # m1 # c # rest) = Some ([y1, y2, y3, y4], [m1], rest)"
      using h c by (simp add: date_fields_def)
    have mf: "month_field [m1] = is_nonzero m1" by (simp add: month_field_def)
    show ?thesis
    proof (cases "is_nonzero m1")
      case True
      with c have "rx_match format_regex ([], y1 # y2 # y3 # y4 # h1 # m1 # c # rest) =
          rx_match rx_d (?cy @ [(''m'', [m1])], rest)"
        unfolding m month_day by simp
      then show ?thesis
        unfolding df
        by (simp add: rx_d_first yf mf True)
    next
      case False
      with c have "rx_match format_regex ([], y1 # y2 # y3 # y4 # h1 # m1 # c # rest) = []"
        unfolding m month_day by simp
      then show ?thesis
        unfolding df by (simp add: mf False)
    qed
  next
    case c: False
    have mf: "month_field [m1, c] =
        ((m1 = CHR ''1'' \<and> c \<in> set ''012'') \<or> (m1 = CHR ''0'' \<and> is_nonzero c))"
      by (auto simp: month_field_def)
    show ?thesis
    proof (cases "rest")
      case Nil
      then have "rx_match format_regex ([], y1 # y2 # y3 # y4 # h1 # m1 # c # rest) = []"
        unfolding m month_day using c by (simp add: hyphen_day)
      moreover have "date_fields (y1 # y2 # y3 # y4 # h1 # m1 # c # rest) = None"
        using h c Nil by (simp add: date_fields_def)
      ultimately show ?thesis by simp
    next
      case (Cons h2 ds)
      show ?thesis
      proof (cases "h2 = CHR ''-'' \<and> month_field [m1, c]")
        case True
        then have "rx_match format_regex ([], y1 # y2 # y3 # y4 # h1 # m1 # c # rest) =
            rx_match rx_d (?cy @ [(''m'', [m1, c])], ds)"
          unfolding m month_day using c Cons mf by (simp add: hyphen_day)
        moreover have "date_fields (y1 # y2 # y3 # y4 # h1 # m1 # c # rest) =
            Some ([y1, y2, y3, y4], [m1, c], ds)"
          using h c Cons True by (simp add: date_fields_def)
        ultimately show ?thesis
          by (simp add: rx_d_first yf True)
      next
        case False
        then have "rx_match format_regex ([], y1 # y2 # y3 # y4 # h1 # m1 # c # rest) = []"
          unfolding m month_day using c Cons mf by (auto simp: hyphen_day)
        moreover have "(case date_fields (y1 # y2 # y3 # y4 # h1 # m1 # c # rest) of
            Some (ys, ms, ds) \<Rightarrow>
              if year_field ys \<and> month_field ms \<and> day_field ds
              then Some [(''Y'', ys), (''m'', ms), (''d'', ds)] else None
          | None \<Rightarrow> None) = None"
          using h c Cons False by (auto simp: date_fields_def)
        ultimately show ?thesis by simp
      qed
    qed
  qed
qed

lemma short_fields:
  assumes "length s < 7"
  shows "date_fields s = None"
proof -
  from assms consider "s = []" | a where "s = [a]" | a b where "s = [a, b]"
    | a b c where "s = [a, b, c]" | a b c d where "s = [a, b, c, d]"
    | a b c d e where "s = [a, b, c, d, e]" | a b c d e f where "s = [a, b, c, d, e, f]"
    by (auto simp: less_Suc_eq numeral_eq_Suc length_Suc_conv)
  then show ?thesis by cases (simp_all add: date_fields_def)
qed

lemma first_match_fields:
  "first_full (rx_match format_regex ([], s)) =
     (case date_fields s of
        Some (ys, ms, ds) \<Rightarrow>
          if year_field ys \<and> month_field ms \<and> day_field ds
          then Some [(''Y'', ys), (''m'', ms), (''d'', ds)] else None
      | None \<Rightarrow> None)"
proof (cases "length s < 7")
  case True
  then show ?thesis
    by (simp add: short_fields short_no_match)
next
  case False
  then obtain y1 y2 y3 y4 h1 m1 c rest where "s = y1 # y2 # y3 # y4 # h1 # m1 # c # rest"
    by (auto simp: not_less numeral_eq_Suc Suc_le_length_iff)
  then show ?thesis by (simp only: long_match)
qed

lemma digit_not_space: "is_digit c \<Longrightarrow> \<not> py_isspace c"
  by (auto simp: is_digit_def py_isspace_def)

lemma digit_not_sign:
  "is_digit c \<Longrightarrow> c \<noteq> CHR ''+''" "is_digit c \<Longrightarrow> c \<noteq> CHR ''_''"
  by (auto simp: is_digit_def)

lemma strip_id:
  assumes "t \<noteq> []" and "\<not> py_isspace (hd t)" and "\<not> py_isspace (last t)"
  shows "strip t = t"
proof -
  from assms have "dropWhile py_isspace t = t" by (cases t) simp_all
  moreover from assms have "dropWhile py_isspace (rev t) = rev t"
    by (cases "rev t") (simp_all add: hd_rev)
  ultimately show ?thesis by (simp add: strip_def)
qed

lemma int_body_digits:
  "list_all is_digit t \<Longrightarrow> t \<noteq> [] \<Longrightarrow> int_body p t"
proof (induction t arbitrary: p)
  case Nil
  then show ?case by simp
next
  case (Cons c cs)
  then show ?case
    by (cases cs) (auto simp: digit_not_sign)
qed

lemma py_int_stripped:
  assumes "strip t = c # r" and "c \<noteq> CHR ''-''" and "c \<noteq> CHR ''+''"
      and "int_body None (c # r)" and "length (filter is_digit (c # r)) \<le> 4300"
  shows "py_int t = Inr (int (foldl (\<lambda>a c. 10 * a + digit_val c) 0 (filter is_digit (c # r))))"
  using assms by (simp add: py_int_def Let_def)

lemma py_int_digits:
  assumes d: "list_all is_digit t" and ne: "t \<noteq> []" and len: "length t \<le> 4"
  shows "py_int t = Inr (int (field_value t))"
proof -
  from d ne have h: "is_digit (hd t)" "is_digit (last t)"
    by (auto simp: list_all_iff)
  then have st: "strip t = t"
    using ne by (intro strip_id) (auto dest: digit_not_space)
  obtain c r where t: "t = c # r" using ne by (cases t) auto
  with h have c: "c \<noteq> CHR ''-''" "c \<noteq> CHR ''+''"
    by (auto dest: not_hyphen digit_not_sign)
  have f: "filter is_digit t = t" using d by (simp add: list_all_iff)
  have l: "length (filter is_digit (c # r)) \<le> 4300" using len f t by simp
  have b: "int_body None (c # r)" using int_body_digits[OF d ne, of None] t by simp
  have s: "strip t = c # r" using st t by simp
  from py_int_stripped[OF s c b l] show ?thesis
    by (simp add: field_value_def t)
qed

lemma py_int_space_digit:
  assumes "is_digit c"
  shows "py_int [CHR '' '', c] = Inr (int (field_value [CHR '' '', c]))"
proof -
  have sp: "py_isspace CHR '' ''" by (simp add: py_isspace_def)
  have st: "strip [CHR '' '', c] = c # []"
    using assms sp by (simp add: strip_def digit_not_space)
  have ns: "\<not> is_digit CHR '' ''" by (simp add: is_digit_def)
  have c: "c \<noteq> CHR ''-''" "c \<noteq> CHR ''+''"
    using assms by (auto dest: not_hyphen digit_not_sign)
  have b: "int_body None (c # [])" using assms by (simp add: digit_not_sign)
  have l: "length (filter is_digit (c # [])) \<le> 4300" by simp
  from py_int_stripped[OF st c b l] show ?thesis
    using assms ns by (simp add: field_value_def)
qed

lemma year_field_int: "year_field ys \<Longrightarrow> py_int ys = Inr (int (field_value ys))"
  by (rule py_int_digits) (auto simp: year_field_def)

lemma month_field_int: "month_field ms \<Longrightarrow> py_int ms = Inr (int (field_value ms))"
proof -
  assume m: "month_field ms"
  have z: "is_digit CHR ''0''" "is_digit CHR ''1''" by (simp_all add: is_digit_def)
  have t: "c \<in> set ''012'' \<Longrightarrow> is_digit c" for c by (auto simp: is_digit_def)
  from m have "list_all is_digit ms \<and> ms \<noteq> [] \<and> length ms \<le> 4"
    by (auto simp: month_field_def nonzero_facts z t split: list.splits)
  then show ?thesis by (intro py_int_digits) simp_all
qed

lemma day_field_int: "day_field ds \<Longrightarrow> py_int ds = Inr (int (field_value ds))"
proof -
  assume d: "day_field ds"
  have z: "is_digit CHR ''0''" "is_digit CHR ''3''" by (simp_all add: is_digit_def)
  have t: "c \<in> set ''01'' \<Longrightarrow> is_digit c" "c \<in> set ''12'' \<Longrightarrow> is_digit c" for c
    by (auto simp: is_digit_def)
  from d consider "list_all is_digit ds \<and> ds \<noteq> [] \<and> length ds \<le> 4"
    | c where "ds = [CHR '' '', c]" "is_digit c"
    by (auto simp: day_field_def nonzero_facts z t split: list.splits)
  then show ?thesis
  proof cases
    case 1
    then show ?thesis by (intro py_int_digits) simp_all
  next
    case 2
    then show ?thesis by (simp add: py_int_space_digit)
  qed
qed

lemma datetime_date_valid:
  "valid_date y m d \<Longrightarrow> datetime_date (int y) (int m) (int d) = Inr \<lparr>year = y, month = m, day = d\<rparr>"
  by (simp add: valid_date_def datetime_date_def)

lemma datetime_date_invalid:
  "\<not> valid_date y m d \<Longrightarrow> \<exists>msg. datetime_date (int y) (int m) (int d) = Inl (ValueError msg)"
  by (auto simp: valid_date_def datetime_date_def)

lemma strptime_fields:
  assumes "date_fields s = Some (ys, ms, ds)" and "year_field ys" and "month_field ms"
      and "day_field ds"
  shows "strptime s = datetime_date (int (field_value ys)) (int (field_value ms)) (int (field_value ds))"
proof -
  have "first_full (rx_match format_regex ([], s)) = Some [(''Y'', ys), (''m'', ms), (''d'', ds)]"
    using assms by (simp add: first_match_fields)
  then obtain tl where m: "rx_match format_regex ([], s) = ([(''Y'', ys), (''m'', ms), (''d'', ds)], []) # tl"
    by (auto simp: first_full_def split: list.splits if_splits)
  show ?thesis
    unfolding strptime_def m
    by (simp add: getitem_def year_field_int[OF assms(2)] month_field_int[OF assms(3)]
        day_field_int[OF assms(4)])
qed

lemma strptime_no_fields:
  assumes "\<not> (\<exists>ys ms ds. date_fields s = Some (ys, ms, ds) \<and> year_field ys \<and> month_field ms \<and>
      day_field ds)"
  shows "\<exists>msg. strptime s = Inl (ValueError msg)"
proof -
  have "first_full (rx_match format_regex ([], s)) = None"
    using assms by (auto simp: first_match_fields split: option.splits)
  then show ?thesis
    by (auto simp: first_full_def strptime_def split: list.splits if_splits)
qed

lemma strptime_accepted:
  "(case accepted_date s of
      Some dt \<Rightarrow> strptime s = Inr dt
    | None \<Rightarrow> (\<exists>msg. strptime s = Inl (ValueError msg)))"
proof (cases "\<exists>ys ms ds. date_fields s = Some (ys, ms, ds) \<and> year_field ys \<and> month_field ms \<and>
      day_field ds")
  case False
  then have "accepted_date s = None"
    by (auto simp: accepted_date_def split: option.splits)
  with strptime_no_fields[OF False] show ?thesis by simp
next
  case True
  then obtain ys ms ds where f: "date_fields s = Some (ys, ms, ds)" "year_field ys"
    "month_field ms" "day_field ds" by blast
  note st = strptime_fields[OF f]
  show ?thesis
  proof (cases "valid_date (field_value ys) (field_value ms) (field_value ds)")
    case True
    with f have "accepted_date s =
        Some \<lparr>year = field_value ys, month = field_value ms, day = field_value ds\<rparr>"
      by (simp add: accepted_date_def)
    with st datetime_date_valid[OF True] show ?thesis by simp
  next
    case False
    with f have "accepted_date s = None" by (simp add: accepted_date_def)
    with st datetime_date_invalid[OF False] show ?thesis by simp
  qed
qed

lemma validate_date_accepted:
  "validate_date d s =
     (case accepted_date d of
        Some dt \<Rightarrow> Inr (Some dt, s)
      | None \<Rightarrow> Inr (None, py_print ''Invalid date format or invalid calendar date.'' s))"
  using strptime_accepted[of d]
  by (auto simp: validate_date_def split: option.splits)

lemma digit_val_chars:
  assumes "is_digit c"
  shows "(c = CHR ''0'') = (digit_val c = 0)" "(c = CHR ''1'') = (digit_val c = 1)"
    "(c = CHR ''3'') = (digit_val c = 3)" "is_nonzero c = (1 \<le> digit_val c)"
    "(c \<in> set ''012'') = (digit_val c \<le> 2)" "(c \<in> set ''01'') = (digit_val c \<le> 1)"
    "(c \<in> set ''12'') = (1 \<le> digit_val c \<and> digit_val c \<le> 2)" "digit_val c \<le> 9"
    "c \<noteq> CHR '' ''" "(c = CHR ''2'') = (digit_val c = 2)"
  using assms by (auto simp: is_digit_def digit_val_def is_nonzero_def)

lemma two_digit_value:
  "is_digit a \<Longrightarrow> is_digit b \<Longrightarrow> field_value [a, b] = 10 * digit_val a + digit_val b"
  by (simp add: field_value_def)

lemma two_digit_month:
  assumes "is_digit a" and "is_digit b"
  shows "month_field [a, b] = (1 \<le> field_value [a, b] \<and> field_value [a, b] \<le> 12)"
proof -
  have "month_field [a, b] =
      ((digit_val a = 0 \<and> 1 \<le> digit_val b) \<or> (digit_val a = 1 \<and> digit_val b \<le> 2))"
    by (auto simp add: month_field_def digit_val_chars[OF assms(1)] digit_val_chars[OF assms(2)])
  also have "\<dots> = (1 \<le> 10 * digit_val a + digit_val b \<and> 10 * digit_val a + digit_val b \<le> 12)"
    using digit_val_chars(8)[OF assms(1)] digit_val_chars(8)[OF assms(2)] by arith
  finally show ?thesis by (simp add: two_digit_value[OF assms])
qed

lemma two_digit_day:
  assumes "is_digit a" and "is_digit b"
  shows "day_field [a, b] = (1 \<le> field_value [a, b] \<and> field_value [a, b] \<le> 31)"
proof -
  have "day_field [a, b] =
      ((digit_val a = 0 \<and> 1 \<le> digit_val b) \<or> (1 \<le> digit_val a \<and> digit_val a \<le> 2) \<or>
       (digit_val a = 3 \<and> digit_val b \<le> 1))"
    using assms(2)
    by (auto simp add: day_field_def digit_val_chars[OF assms(1)] digit_val_chars[OF assms(2)])
  also have "\<dots> = (1 \<le> 10 * digit_val a + digit_val b \<and> 10 * digit_val a + digit_val b \<le> 31)"
    using digit_val_chars(8)[OF assms(1)] digit_val_chars(8)[OF assms(2)] by arith
  finally show ?thesis by (simp add: two_digit_value[OF assms])
qed

lemma two_char_month_digits: "month_field [a, b] \<Longrightarrow> is_digit a \<and> is_digit b"
  by (auto simp: month_field_def is_digit_def is_nonzero_def)

lemma two_char_day_digits: "day_field [a, b] \<Longrightarrow> a \<noteq> CHR '' '' \<Longrightarrow> is_digit a \<and> is_digit b"
  by (auto simp: day_field_def is_digit_def is_nonzero_def)

lemma days_in_month_le: "days_in_month y m \<le> 31"
  by (simp add: days_in_month_def)

lemma well_formed_date_length: "length s \<noteq> 10 \<Longrightarrow> well_formed_date s = None"
  by (auto simp: well_formed_date_def split: list.splits)

lemma ten_chars:
  assumes "length s = 10"
  obtains y1 y2 y3 y4 h1 m1 m2 h2 d1 d2 where "s = [y1, y2, y3, y4, h1, m1, m2, h2, d1, d2]"
  using assms by (auto simp: numeral_eq_Suc length_Suc_conv)

lemma well_formed_is_accepted_ten:
  assumes ns: "CHR '' '' \<notin> set [y1, y2, y3, y4, h1, m1, m2, h2, d1, d2]"
  shows "well_formed_date [y1, y2, y3, y4, h1, m1, m2, h2, d1, d2] =
         accepted_date [y1, y2, y3, y4, h1, m1, m2, h2, d1, d2]"
proof -
  let ?s = "[y1, y2, y3, y4, h1, m1, m2, h2, d1, d2]"
  let ?ys = "[y1, y2, y3, y4]"
  have iso: "well_formed_date ?s =
      (if list_all is_digit [y1, y2, y3, y4, m1, m2, d1, d2] \<and> h1 = CHR ''-'' \<and> h2 = CHR ''-'' \<and>
          valid_date (field_value ?ys) (field_value [m1, m2]) (field_value [d1, d2])
       then Some \<lparr>year = field_value ?ys, month = field_value [m1, m2], day = field_value [d1, d2]\<rparr>
       else None)"
    by (simp add: well_formed_date_def)
  show ?thesis
  proof (cases "h1 = CHR ''-''")
    case False
    then have "date_fields ?s = None" by (simp add: date_fields_def)
    with False iso show ?thesis by (simp add: accepted_date_def)
  next
    case h1: True
    show ?thesis
    proof (cases "m2 = CHR ''-''")
      case True
      then have "date_fields ?s = Some (?ys, [m1], [h2, d1, d2])"
        using h1 by (simp add: date_fields_def)
      moreover have "\<not> day_field [h2, d1, d2]" by (simp add: day_field_def)
      moreover have "\<not> is_digit m2" using True by (simp add: nonzero_facts)
      ultimately show ?thesis using iso by (simp add: accepted_date_def)
    next
      case m2: False
      show ?thesis
      proof (cases "h2 = CHR ''-''")
        case False
        then have "date_fields ?s = None" using h1 m2 by (simp add: date_fields_def)
        with False iso show ?thesis by (simp add: accepted_date_def)
      next
        case h2: True
        have df: "date_fields ?s = Some (?ys, [m1, m2], [d1, d2])"
          using h1 m2 h2 by (simp add: date_fields_def)
        have yf: "year_field ?ys = list_all is_digit ?ys" by (simp add: year_field_def)
        have d1s: "d1 \<noteq> CHR '' ''" using ns by auto
        show ?thesis
        proof (cases "list_all is_digit [y1, y2, y3, y4, m1, m2, d1, d2]")
          case True
          then have dm: "is_digit m1" "is_digit m2" and dd: "is_digit d1" "is_digit d2"
            and dy: "list_all is_digit ?ys" by simp_all
          have v: "valid_date y (field_value [m1, m2]) (field_value [d1, d2]) \<Longrightarrow>
              month_field [m1, m2] \<and> day_field [d1, d2]" for y
            using days_in_month_le[of y "field_value [m1, m2]"]
            by (simp add: two_digit_month[OF dm] two_digit_day[OF dd] valid_date_def)
          show ?thesis
            using True h1 h2 dy v[of "field_value ?ys"]
            unfolding iso accepted_date_def df
            by (auto simp: yf)
        next
          case False
          have "\<not> (year_field ?ys \<and> month_field [m1, m2] \<and> day_field [d1, d2])"
          proof
            assume a: "year_field ?ys \<and> month_field [m1, m2] \<and> day_field [d1, d2]"
            then have "is_digit m1 \<and> is_digit m2" "is_digit d1 \<and> is_digit d2"
              using two_char_month_digits[of m1 m2] two_char_day_digits[of d1 d2] d1s by auto
            with a False show False by (simp add: yf)
          qed
          then show ?thesis
            using False unfolding iso accepted_date_def df by auto
        qed
      qed
    qed
  qed
qed

lemma well_formed_is_accepted:
  "well_formed_date s = (if length s = 10 \<and> CHR '' '' \<notin> set s then accepted_date s else None)"
proof (cases "length s = 10")
  case False
  then show ?thesis by (simp add: well_formed_date_length)
next
  case True
  then obtain y1 y2 y3 y4 h1 m1 m2 h2 d1 d2 where s: "s = [y1, y2, y3, y4, h1, m1, m2, h2, d1, d2]"
    by (rule ten_chars)
  show ?thesis
  proof (cases "CHR '' '' \<in> set s")
    case False
    with True s well_formed_is_accepted_ten[of y1 y2 y3 y4 h1 m1 m2 h2 d1 d2] show ?thesis by simp
  next
    case sp: True
    have nd: "\<not> is_digit CHR '' ''" "CHR '' '' \<noteq> CHR ''-''" by (simp_all add: is_digit_def)
    from sp s have "\<not> (list_all is_digit [y1, y2, y3, y4, m1, m2, d1, d2] \<and> h1 = CHR ''-'' \<and>
        h2 = CHR ''-'')"
      using nd by auto
    then have "well_formed_date s = None" unfolding s by (auto simp: well_formed_date_def)
    with sp True show ?thesis by simp
  qed
qed

lemma sample_accepted_dates:
  "accepted_date ''2024-1-5'' = Some \<lparr>year = 2024, month = 1, day = 5\<rparr>"
  "accepted_date ''2024-02-29'' = Some \<lparr>year = 2024, month = 2, day = 29\<rparr>"
  "accepted_date ''2023-02-29'' = None"
  "accepted_date ''2024-01- 5'' = Some \<lparr>year = 2024, month = 1, day = 5\<rparr>"
  "accepted_date ''01/05/2024'' = None"
  by (simp_all add: accepted_date_def date_fields_def year_field_def month_field_def day_field_def
      is_digit_def is_nonzero_def field_value_def digit_val_def valid_date_def days_in_month_def
      is_leap_def)


text \<open>
  C6, as the code has it, for every input string whose characters are all below U+0100
  (the strings of this model, where a digit is one of \<open>0\<close> to \<open>9\<close>). On such a string
  \<open>validate_date\<close> never raises. It returns the date exactly for the accepted strings
  above, and for every other string it prints its message and returns \<open>None\<close>. The
  well-formed YYYY-MM-DD calendar dates are exactly the accepted strings of ten characters
  without a space: each of them is accepted with the date it names, and the only other
  strings accepted write the month or the day with one digit, or the day as a space and
  one digit.
\<close>

theorem validate_date_accepted_format:
  "validate_date d s =
     (case accepted_date d of
        Some dt \<Rightarrow> Inr (Some dt, s)
      | None \<Rightarrow> Inr (None, py_print ''Invalid date format or invalid calendar date.'' s))
   \<and> well_formed_date d = (if length d = 10 \<and> CHR '' '' \<notin> set d then accepted_date d else None)"
  using validate_date_accepted[of d s] well_formed_is_accepted[of d] by simp


theorem validate_date_accepted_format_witness:
  "validate_date ''2024-02-29'' sample_state =
     Inr (Some \<lparr>year = 2024, month = 2, day = 29\<rparr>, sample_state) \<and>
   well_formed_date ''2024-02-29'' = Some \<lparr>year = 2024, month = 2, day = 29\<rparr> \<and>
   validate_date ''2023-02-29'' sample_state =
     Inr (None, py_print ''Invalid date format or invalid calendar date.'' sample_state) \<and>
   validate_date ''01/05/2024'' sample_state =
     Inr (None, py_print ''Invalid date format or invalid calendar date.'' sample_state) \<and>
   validate_date ''2024-01- 5'' sample_state =
     Inr (Some \<lparr>year = 2024, month = 1, day = 5\<rparr>, sample_state)"
  using validate_date_accepted_format[of "''2024-02-29''" sample_state]
    validate_date_accepted_format[of "''2023-02-29''" sample_state]
    validate_date_accepted_format[of "''01/05/2024''" sample_state]
    validate_date_accepted_format[of "''2024-01- 5''" sample_state]
  by (simp add: sample_accepted_dates)


text \<open>
  The claim with ``iff well-formed YYYY-MM-DD'' fails: \<open>2024-1-5\<close> is not of that form,
  and \<open>validate_date\<close> returns the fifth of January 2024 for it.
\<close>

theorem validate_date_single_digit_month:
  "well_formed_date ''2024-1-5'' = None \<and>
   validate_date ''2024-1-5'' sample_state =
     Inr (Some \<lparr>year = 2024, month = 1, day = 5\<rparr>, sample_state)"
  by (simp add: well_formed_date_length validate_date_accepted sample_accepted_dates)

end
